theory Spec2Isabelle
  imports Complex_Main "HOL-Library.Product_Lexorder"
begin

section \<open>Values of type float64\<close>

text \<open>
  A Go \<^verbatim>\<open>float64\<close> is NaN, one of the two infinities, or a finite number. Comparisons,
  \<^verbatim>\<open>math.IsNaN\<close>, \<^verbatim>\<open>math.Floor\<close>, \<^verbatim>\<open>math.Ceil\<close> and \<^verbatim>\<open>math.Abs\<close> are exact operations of
  IEEE 754 and are modelled exactly. The arithmetic operations and \<^verbatim>\<open>math.Sqrt\<close> compute
  the exact real result and round it; the rounding is the field \<open>rnd\<close> of the environment
  below and is left open, so that a theorem stated for every environment does not depend
  on how binary64 rounds or overflows. The two zeros of IEEE 754 are one value here; the
  program never divides a non-zero number by zero, which is the only place where the
  sign of a zero would show.
\<close>

datatype float64 = NaN | NInf | Fin real | PInf

text \<open>
  The platform: \<open>rnd\<close> rounds an exact real result to a float64 (it may overflow to an
  infinity); \<open>cnv\<close> is the result of converting to \<^verbatim>\<open>int\<close> a float64 that \<^verbatim>\<open>int\<close>
  cannot represent, which the Go specification leaves to the implementation.
\<close>

record fpenv =
  rnd :: "real \<Rightarrow> float64"
  cnv :: "float64 \<Rightarrow> int"

definition IsNaN :: "float64 \<Rightarrow> bool" where
  "IsNaN x = (case x of NaN \<Rightarrow> True | _ \<Rightarrow> False)"

fun flt :: "float64 \<Rightarrow> float64 \<Rightarrow> bool" where
  "flt (Fin a) (Fin b) = (a < b)"
| "flt NInf (Fin b) = True"
| "flt NInf PInf = True"
| "flt (Fin a) PInf = True"
| "flt _ _ = False"

definition feq :: "float64 \<Rightarrow> float64 \<Rightarrow> bool" where
  "feq x y = (x = y \<and> \<not> IsNaN x)"

definition fle :: "float64 \<Rightarrow> float64 \<Rightarrow> bool" where
  "fle x y = (flt x y \<or> feq x y)"

definition fgt :: "float64 \<Rightarrow> float64 \<Rightarrow> bool" where
  "fgt x y = flt y x"

definition fge :: "float64 \<Rightarrow> float64 \<Rightarrow> bool" where
  "fge x y = fle y x"

fun fneg :: "float64 \<Rightarrow> float64" where
  "fneg NaN = NaN"
| "fneg NInf = PInf"
| "fneg PInf = NInf"
| "fneg (Fin a) = Fin (- a)"

fun fadd :: "fpenv \<Rightarrow> float64 \<Rightarrow> float64 \<Rightarrow> float64" where
  "fadd env (Fin a) (Fin b) = rnd env (a + b)"
| "fadd env NaN _ = NaN"
| "fadd env _ NaN = NaN"
| "fadd env PInf NInf = NaN"
| "fadd env NInf PInf = NaN"
| "fadd env PInf _ = PInf"
| "fadd env _ PInf = PInf"
| "fadd env NInf _ = NInf"
| "fadd env _ NInf = NInf"

definition fsub :: "fpenv \<Rightarrow> float64 \<Rightarrow> float64 \<Rightarrow> float64" where
  "fsub env x y = fadd env x (fneg y)"

text \<open>The infinity with the sign of a product or quotient; a zero factor gives NaN.\<close>

definition signed_inf :: "real \<Rightarrow> float64" where
  "signed_inf s = (if s = 0 then NaN else if 0 < s then PInf else NInf)"

fun fmul :: "fpenv \<Rightarrow> float64 \<Rightarrow> float64 \<Rightarrow> float64" where
  "fmul env (Fin a) (Fin b) = rnd env (a * b)"
| "fmul env NaN _ = NaN"
| "fmul env _ NaN = NaN"
| "fmul env PInf (Fin b) = signed_inf b"
| "fmul env NInf (Fin b) = signed_inf (- b)"
| "fmul env (Fin a) PInf = signed_inf a"
| "fmul env (Fin a) NInf = signed_inf (- a)"
| "fmul env PInf PInf = PInf"
| "fmul env NInf NInf = PInf"
| "fmul env PInf NInf = NInf"
| "fmul env NInf PInf = NInf"

fun fdiv :: "fpenv \<Rightarrow> float64 \<Rightarrow> float64 \<Rightarrow> float64" where
  "fdiv env (Fin a) (Fin b) = (if b = 0 then signed_inf a else rnd env (a / b))"
| "fdiv env NaN _ = NaN"
| "fdiv env _ NaN = NaN"
| "fdiv env (Fin a) PInf = Fin 0"
| "fdiv env (Fin a) NInf = Fin 0"
| "fdiv env PInf (Fin b) = (if 0 \<le> b then PInf else NInf)"
| "fdiv env NInf (Fin b) = (if 0 \<le> b then NInf else PInf)"
| "fdiv env PInf PInf = NaN"
| "fdiv env PInf NInf = NaN"
| "fdiv env NInf PInf = NaN"
| "fdiv env NInf NInf = NaN"

fun fsqrt :: "fpenv \<Rightarrow> float64 \<Rightarrow> float64" where
  "fsqrt env (Fin a) = (if a < 0 then NaN else rnd env (sqrt a))"
| "fsqrt env PInf = PInf"
| "fsqrt env _ = NaN"

fun fabs :: "float64 \<Rightarrow> float64" where
  "fabs (Fin a) = Fin \<bar>a\<bar>"
| "fabs NInf = PInf"
| "fabs x = x"

fun Floor :: "float64 \<Rightarrow> float64" where
  "Floor (Fin a) = Fin (of_int \<lfloor>a\<rfloor>)"
| "Floor x = x"

fun Ceil :: "float64 \<Rightarrow> float64" where
  "Ceil (Fin a) = Fin (of_int \<lceil>a\<rceil>)"
| "Ceil x = x"

text \<open>
  \<^verbatim>\<open>float64(n)\<close> for an \<^verbatim>\<open>int\<close>. Every integer converted in this program is a length or
  a count of slice elements; such a number is far below \<open>2^53\<close>, where the conversion is
  exact.
\<close>

definition float64_of_int :: "int \<Rightarrow> float64" where
  "float64_of_int n = Fin (of_int n)"

text \<open>
  \<^verbatim>\<open>int(x)\<close> for a float64: the fraction is discarded (truncation towards zero) when the
  result fits the 64-bit \<^verbatim>\<open>int\<close>; otherwise the value is the platform's.
\<close>

definition trunc :: "real \<Rightarrow> int" where
  "trunc a = (if 0 \<le> a then \<lfloor>a\<rfloor> else \<lceil>a\<rceil>)"

definition go_int :: "fpenv \<Rightarrow> float64 \<Rightarrow> int" where
  "go_int env x =
     (case x of
        Fin a \<Rightarrow> if - (2 ^ 63) \<le> trunc a \<and> trunc a < 2 ^ 63 then trunc a else cnv env x
      | _ \<Rightarrow> cnv env x)"

text \<open>
  The order of \<^verbatim>\<open>sort.Float64s\<close>: ascending by \<open><\<close>, NaN before every other value. The
  key below is injective, so the sorted slice is determined by its elements.
\<close>

fun sort_rank :: "float64 \<Rightarrow> nat \<times> real" where
  "sort_rank NaN = (0, 0)"
| "sort_rank NInf = (1, 0)"
| "sort_rank (Fin a) = (2, a)"
| "sort_rank PInf = (3, 0)"

definition Float64s :: "float64 list \<Rightarrow> float64 list" where
  "Float64s xs = sort_key sort_rank xs"

section \<open>Errors and panics\<close>

text \<open>
  The program builds its errors with \<^verbatim>\<open>fmt.Errorf\<close>; each message format is one
  constructor carrying the values the message prints. A run-time panic is an error value
  too: a slice index out of range, and the dereference of a nil dataset pointer.
\<close>

datatype bound = StartBound | EndBound

datatype error =
    EmptyInput
  | OutOfBounds bound float64 float64 float64
  | InvalidRange float64 float64
  | NoDataInRange
  | PanicIndexOutOfRange
  | PanicNilDereference

definition index :: "'a list \<Rightarrow> int \<Rightarrow> error + 'a" where
  "index xs i = (if 0 \<le> i \<and> i < int (length xs) then Inr (xs ! nat i) else Inl PanicIndexOutOfRange)"

section \<open>The data model (package types)\<close>

record DataPoint =
  Timestamp :: float64
  Data :: "string \<rightharpoonup> float64"
  ParticipantID :: string
  Condition :: string

record CleanConfig =
  RequiredColumns :: "string list"
  RemoveOutliers :: bool
  OutlierMethod :: string
  MaxMissingPercent :: float64
  ZScoreThreshold :: float64

text \<open>The values the program stores in \<^verbatim>\<open>Metadata map[string]interface{}\<close>.\<close>

datatype meta_value = MInt int | MFloat float64 | MConfig CleanConfig

record Dataset =
  Points :: "DataPoint list"
  Columns :: "string list"
  Metadata :: "string \<rightharpoonup> meta_value"

section \<open>Package cleaner\<close>

record CleanStats =
  OriginalPoints :: int
  RemovedMissing :: int
  RemovedOutliers :: int
  FinalPoints :: int

fun extractColumnValues :: "DataPoint list \<Rightarrow> string \<Rightarrow> float64 list" where
  "extractColumnValues [] col = []"
| "extractColumnValues (p # points) col =
     (case Data p col of
        Some val \<Rightarrow>
          if \<not> IsNaN val then val # extractColumnValues points col
          else extractColumnValues points col
      | None \<Rightarrow> extractColumnValues points col)"

definition percentile :: "fpenv \<Rightarrow> float64 list \<Rightarrow> float64 \<Rightarrow> error + float64" where
  "percentile env srt p =
     (if length srt = 0 then Inr NaN
      else
        let k = fmul env (fdiv env p (Fin 100)) (float64_of_int (int (length srt) - 1));
            f = Floor k;
            c = Ceil k
        in if feq f c then index srt (go_int env k)
           else
             (case index srt (go_int env f) of
                Inl e \<Rightarrow> Inl e
              | Inr sf \<Rightarrow>
                  let d0 = fmul env sf (fsub env c k)
                  in (case index srt (go_int env c) of
                        Inl e \<Rightarrow> Inl e
                      | Inr sc \<Rightarrow>
                          let d1 = fmul env sc (fsub env k f)
                          in Inr (fadd env d0 d1))))"

definition mean :: "fpenv \<Rightarrow> float64 list \<Rightarrow> float64" where
  "mean env values =
     (if length values = 0 then NaN
      else fdiv env (foldl (fadd env) (Fin 0) values) (float64_of_int (int (length values))))"

definition stdDev :: "fpenv \<Rightarrow> float64 list \<Rightarrow> float64 \<Rightarrow> float64" where
  "stdDev env values m =
     (if length values = 0 then NaN
      else
        let varianceSum =
              foldl (\<lambda>s v. fadd env s (fmul env (fsub env v m) (fsub env v m))) (Fin 0) values;
            variance = fdiv env varianceSum (float64_of_int (int (length values)))
        in fsqrt env variance)"

definition calculateIQRBounds :: "fpenv \<Rightarrow> float64 list \<Rightarrow> error + float64 \<times> float64" where
  "calculateIQRBounds env values =
     (if length values = 0 then Inr (NaN, NaN)
      else
        let srt = Float64s values
        in (case percentile env srt (Fin 25) of
              Inl e \<Rightarrow> Inl e
            | Inr q1 \<Rightarrow>
                (case percentile env srt (Fin 75) of
                   Inl e \<Rightarrow> Inl e
                 | Inr q3 \<Rightarrow>
                     let iqr = fsub env q3 q1;
                         lowerBound = fsub env q1 (fmul env (Fin (3 / 2)) iqr);
                         upperBound = fadd env q3 (fmul env (Fin (3 / 2)) iqr)
                     in Inr (lowerBound, upperBound))))"

definition calculateZScoreBounds :: "fpenv \<Rightarrow> float64 list \<Rightarrow> float64 \<Rightarrow> float64 \<times> float64" where
  "calculateZScoreBounds env values threshold =
     (if length values = 0 then (NaN, NaN)
      else
        let m = mean env values;
            sd = stdDev env values m;
            lowerBound = fsub env m (fmul env threshold sd);
            upperBound = fadd env m (fmul env threshold sd)
        in (lowerBound, upperBound))"

text \<open>The test \<^verbatim>\<open>!ok || math.IsNaN(val)\<close> of the missing-data filter.\<close>

definition isMissing :: "DataPoint \<Rightarrow> string \<Rightarrow> bool" where
  "isMissing p col = (case Data p col of None \<Rightarrow> True | Some val \<Rightarrow> IsNaN val)"

definition missingIn :: "DataPoint \<Rightarrow> string list \<Rightarrow> int" where
  "missingIn p requiredCols =
     foldl (\<lambda>missing col. if isMissing p col then missing + 1 else missing) 0 requiredCols"

definition maxMissingOf :: "fpenv \<Rightarrow> string list \<Rightarrow> float64 \<Rightarrow> int" where
  "maxMissingOf env requiredCols maxMissingPercent =
     go_int env (Floor (fdiv env
       (fmul env (float64_of_int (int (length requiredCols))) maxMissingPercent) (Fin 100)))"

definition filterMissingData ::
  "fpenv \<Rightarrow> DataPoint list \<Rightarrow> string list \<Rightarrow> float64 \<Rightarrow> DataPoint list \<times> int" where
  "filterMissingData env points requiredCols maxMissingPercent =
     (let maxMissing = maxMissingOf env requiredCols maxMissingPercent
      in foldl (\<lambda>(filtered, removedCount) p.
                  if missingIn p requiredCols \<le> maxMissing then (filtered @ [p], removedCount)
                  else (filtered, removedCount + 1))
           ([], 0) points)"

text \<open>The first loop of \<^verbatim>\<open>filterOutliers\<close>: the bounds of every column that has values.\<close>

definition boundsBy :: "fpenv \<Rightarrow> string \<Rightarrow> float64 \<Rightarrow> float64 list \<Rightarrow> error + float64 \<times> float64" where
  "boundsBy env method zThreshold values =
     (if method = ''iqr'' then calculateIQRBounds env values
      else if method = ''zscore'' then Inr (calculateZScoreBounds env values zThreshold)
      else calculateIQRBounds env values)"

fun outlierBoundsOf ::
  "fpenv \<Rightarrow> DataPoint list \<Rightarrow> string \<Rightarrow> float64 \<Rightarrow> string list \<Rightarrow>
   (string \<rightharpoonup> float64 \<times> float64) \<Rightarrow> error + (string \<rightharpoonup> float64 \<times> float64)" where
  "outlierBoundsOf env points method zThreshold [] outlierBounds = Inr outlierBounds"
| "outlierBoundsOf env points method zThreshold (col # cols) outlierBounds =
     (let values = extractColumnValues points col
      in if length values = 0 then outlierBoundsOf env points method zThreshold cols outlierBounds
         else
           (case boundsBy env method zThreshold values of
              Inl e \<Rightarrow> Inl e
            | Inr (lowerBound, upperBound) \<Rightarrow>
                outlierBoundsOf env points method zThreshold cols
                  (outlierBounds(col \<mapsto> (lowerBound, upperBound)))))"

text \<open>The inner loop over the columns of one point, left at the first value out of bounds.\<close>

fun isOutlier :: "(string \<rightharpoonup> float64 \<times> float64) \<Rightarrow> DataPoint \<Rightarrow> string list \<Rightarrow> bool" where
  "isOutlier outlierBounds p [] = False"
| "isOutlier outlierBounds p (col # cols) =
     (case outlierBounds col of
        Some (lo, hi) \<Rightarrow>
          (case Data p col of
             Some val \<Rightarrow> if flt val lo \<or> fgt val hi then True else isOutlier outlierBounds p cols
           | None \<Rightarrow> isOutlier outlierBounds p cols)
      | None \<Rightarrow> isOutlier outlierBounds p cols)"

definition filterOutliers ::
  "fpenv \<Rightarrow> DataPoint list \<Rightarrow> string list \<Rightarrow> string \<Rightarrow> float64 \<Rightarrow> error + DataPoint list \<times> int" where
  "filterOutliers env points cols method zThreshold =
     (if length cols = 0 then Inr (points, 0)
      else
        (case outlierBoundsOf env points method zThreshold cols Map.empty of
           Inl e \<Rightarrow> Inl e
         | Inr outlierBounds \<Rightarrow>
             Inr (foldl (\<lambda>(filtered, removedCount) p.
                           if \<not> isOutlier outlierBounds p cols then (filtered @ [p], removedCount)
                           else (filtered, removedCount + 1))
                    ([], 0) points)))"

text \<open>
  \<^verbatim>\<open>CleanDataset\<close> returns the dataset, the counts and an error that is always nil; the
  left summand below is a panic. The lines it prints are not part of the model.
\<close>

definition cleanedDatasetOf :: "fpenv \<Rightarrow> Dataset \<Rightarrow> CleanConfig \<Rightarrow> DataPoint list \<Rightarrow> CleanStats \<Rightarrow> Dataset" where
  "cleanedDatasetOf env dataset config cleanedPoints stats =
     \<lparr> Points = cleanedPoints,
       Columns = Columns dataset,
       Metadata =
         [ ''original_points'' \<mapsto> MInt (OriginalPoints stats),
           ''cleaned_points'' \<mapsto> MInt (FinalPoints stats),
           ''cleaning_config'' \<mapsto> MConfig config,
           ''points_removed'' \<mapsto> MInt (OriginalPoints stats - FinalPoints stats),
           ''removal_percentage'' \<mapsto>
             MFloat (fmul env
               (fdiv env (float64_of_int (OriginalPoints stats - FinalPoints stats))
                  (float64_of_int (OriginalPoints stats)))
               (Fin 100)) ] \<rparr>"

definition CleanDataset :: "fpenv \<Rightarrow> Dataset option \<Rightarrow> CleanConfig \<Rightarrow> error + Dataset \<times> CleanStats" where
  "CleanDataset env dataset_ptr config =
     (case dataset_ptr of
        None \<Rightarrow> Inl PanicNilDereference
      | Some dataset \<Rightarrow>
          let stats0 = \<lparr> OriginalPoints = int (length (Points dataset)), RemovedMissing = 0,
                         RemovedOutliers = 0, FinalPoints = 0 \<rparr>;
              (cleaned1, stats1) =
                (if fgt (MaxMissingPercent config) (Fin 0)
                 then let (filtered, removed) =
                            filterMissingData env (Points dataset) (RequiredColumns config)
                              (MaxMissingPercent config)
                      in (filtered, stats0\<lparr>RemovedMissing := removed\<rparr>)
                 else (Points dataset, stats0))
          in if RemoveOutliers config
             then
               (case filterOutliers env cleaned1 (RequiredColumns config) (OutlierMethod config)
                       (ZScoreThreshold config) of
                  Inl e \<Rightarrow> Inl e
                | Inr (filtered, removed) \<Rightarrow>
                    let stats2 = stats1\<lparr>RemovedOutliers := removed,
                                         FinalPoints := int (length filtered)\<rparr>
                    in Inr (cleanedDatasetOf env dataset config filtered stats2, stats2))
             else
               let stats2 = stats1\<lparr>FinalPoints := int (length cleaned1)\<rparr>
               in Inr (cleanedDatasetOf env dataset config cleaned1 stats2, stats2))"

section \<open>Package clipper\<close>

record ClipConfig =
  StartTime :: "float64 option"
  EndTime :: "float64 option"

record ClipInfo =
  MinTimestamp :: float64
  MaxTimestamp :: float64
  TotalDuration :: float64
  OriginalPoints_clip :: int
  ClippedPoints :: int
  StartFrame :: int
  EndFrame :: int
  ActualStartTime :: float64
  ActualEndTime :: float64

text \<open>The zero value \<^verbatim>\<open>ClipInfo{}\<close>.\<close>

definition zeroClipInfo :: ClipInfo where
  "zeroClipInfo =
     \<lparr> MinTimestamp = Fin 0, MaxTimestamp = Fin 0, TotalDuration = Fin 0,
       OriginalPoints_clip = 0, ClippedPoints = 0, StartFrame = 0, EndFrame = 0,
       ActualStartTime = Fin 0, ActualEndTime = Fin 0 \<rparr>"

text \<open>The scan for the smallest and the largest timestamp, from \<open>+Inf\<close> and \<open>-Inf\<close>.\<close>

definition scanMinMax :: "DataPoint list \<Rightarrow> float64 \<times> float64" where
  "scanMinMax points =
     foldl (\<lambda>(mn, mx) point.
              (if flt (Timestamp point) mn then Timestamp point else mn,
               if fgt (Timestamp point) mx then Timestamp point else mx))
       (PInf, NInf) points"

text \<open>The loop that looks for the two frames; \<open>i\<close> is the index of the head of the list.\<close>

fun findFrames :: "float64 \<Rightarrow> float64 \<Rightarrow> DataPoint list \<Rightarrow> int \<Rightarrow> int \<times> int \<Rightarrow> int \<times> int" where
  "findFrames startTime endTime [] i (startFrame, endFrame) = (startFrame, endFrame)"
| "findFrames startTime endTime (point # points) i (startFrame, endFrame) =
     findFrames startTime endTime points (i + 1)
       (if startFrame = - 1 \<and> fge (Timestamp point) startTime then i else startFrame,
        if fle (Timestamp point) endTime then i else endFrame)"

text \<open>The slice expression \<^verbatim>\<open>xs[lo:hi]\<close>.\<close>

definition slice :: "'a list \<Rightarrow> int \<Rightarrow> int \<Rightarrow> error + 'a list" where
  "slice xs lo hi =
     (if 0 \<le> lo \<and> lo \<le> hi \<and> hi \<le> int (length xs)
      then Inr (take (nat (hi - lo)) (drop (nat lo) xs))
      else Inl PanicIndexOutOfRange)"

text \<open>
  A requested bound: \<^verbatim>\<open>nil\<close> stands for the observed minimum or maximum \<open>dflt\<close>; a
  bound that is given is checked against the observed range.
\<close>

definition checkBound :: "bound \<Rightarrow> float64 option \<Rightarrow> float64 \<Rightarrow> float64 \<Rightarrow> float64 \<Rightarrow> error + float64" where
  "checkBound b requested dflt mn mx =
     (case requested of
        None \<Rightarrow> Inr dflt
      | Some t \<Rightarrow> if flt t mn \<or> fgt t mx then Inl (OutOfBounds b t mn mx) else Inr t)"

text \<open>The part of \<^verbatim>\<open>ClipDataset\<close> after both bounds are known.\<close>

definition clipFrames ::
  "fpenv \<Rightarrow> Dataset \<Rightarrow> ClipInfo \<Rightarrow> float64 \<Rightarrow> float64 \<Rightarrow> error \<times> ClipInfo + Dataset \<times> ClipInfo" where
  "clipFrames env dataset info startTime endTime =
     (if fle endTime startTime then Inl (InvalidRange endTime startTime, info)
      else
        let (startFrame, endFrame) = findFrames startTime endTime (Points dataset) 0 (- 1, - 1)
        in
          if startFrame = - 1 \<or> endFrame = - 1 \<or> startFrame > endFrame
          then Inl (NoDataInRange, info)
          else
            (case slice (Points dataset) startFrame (endFrame + 1) of
               Inl e \<Rightarrow> Inl (e, info)
             | Inr clippedPoints \<Rightarrow>
                 (case index clippedPoints 0 of
                    Inl e \<Rightarrow> Inl (e, info)
                  | Inr first \<Rightarrow>
                      (case index clippedPoints (int (length clippedPoints) - 1) of
                         Inl e \<Rightarrow> Inl (e, info)
                       | Inr final \<Rightarrow>
                           let info' = info\<lparr>ClippedPoints := int (length clippedPoints),
                                              StartFrame := startFrame,
                                              EndFrame := endFrame,
                                              ActualStartTime := Timestamp first,
                                              ActualEndTime := Timestamp final\<rparr>
                           in Inr
                                (\<lparr> Points = clippedPoints,
                                   Columns = Columns dataset,
                                   Metadata =
                                     [ ''original_points'' \<mapsto> MInt (OriginalPoints_clip info'),
                                       ''clipped_points'' \<mapsto> MInt (ClippedPoints info'),
                                       ''original_duration'' \<mapsto> MFloat (TotalDuration info'),
                                       ''clipped_duration'' \<mapsto>
                                         MFloat (fsub env (ActualEndTime info') (ActualStartTime info')),
                                       ''start_time'' \<mapsto> MFloat (ActualStartTime info'),
                                       ''end_time'' \<mapsto> MFloat (ActualEndTime info'),
                                       ''requested_start'' \<mapsto> MFloat startTime,
                                       ''requested_end'' \<mapsto> MFloat endTime ] \<rparr>,
                                 info')))))"

text \<open>
  \<^verbatim>\<open>ClipDataset\<close> returns \<^verbatim>\<open>(nil, info, err)\<close> on an error and \<^verbatim>\<open>(dataset, info, nil)\<close>
  otherwise: the left summand is the error with the \<^verbatim>\<open>ClipInfo\<close> returned beside it.
\<close>

definition ClipDataset ::
  "fpenv \<Rightarrow> Dataset option \<Rightarrow> ClipConfig \<Rightarrow> error \<times> ClipInfo + Dataset \<times> ClipInfo" where
  "ClipDataset env dataset_ptr config =
     (case dataset_ptr of
        None \<Rightarrow> Inl (EmptyInput, zeroClipInfo)
      | Some dataset \<Rightarrow>
          if length (Points dataset) = 0 then Inl (EmptyInput, zeroClipInfo)
          else
            let (mn, mx) = scanMinMax (Points dataset);
                info = zeroClipInfo\<lparr>OriginalPoints_clip := int (length (Points dataset)),
                                     MinTimestamp := mn, MaxTimestamp := mx,
                                     TotalDuration := fsub env mx mn\<rparr>
            in
              (case checkBound StartBound (StartTime config) mn mn mx of
                 Inl e \<Rightarrow> Inl (e, info)
               | Inr startTime \<Rightarrow>
                   (case checkBound EndBound (EndTime config) mx mn mx of
                      Inl e \<Rightarrow> Inl (e, info)
                    | Inr endTime \<Rightarrow> clipFrames env dataset info startTime endTime)))"

section \<open>Package stats\<close>

record StatsConfig =
  AnalyzeColumns :: "string list"
  ByCondition :: bool
  ByParticipant :: bool

record ColumnStats =
  Column :: string
  Mean :: float64
  Median :: float64
  StdDev :: float64
  Min_stat :: float64
  Max_stat :: float64
  Count :: int
  MissingCount :: int
  OutlierCount :: int
  OutlierMethod_stat :: string
  ZScoreThreshold_stat :: float64

record StatsReport =
  OverallStats :: "ColumnStats list"
  ConditionStats :: "string \<rightharpoonup> ColumnStats list"
  ParticipantStats :: "string \<rightharpoonup> ColumnStats list"

text \<open>The package has its own copy of \<^verbatim>\<open>extractColumnValues\<close>.\<close>

fun extractColumnValues_stats :: "DataPoint list \<Rightarrow> string \<Rightarrow> float64 list" where
  "extractColumnValues_stats [] col = []"
| "extractColumnValues_stats (p # points) col =
     (case Data p col of
        Some val \<Rightarrow>
          if \<not> IsNaN val then val # extractColumnValues_stats points col
          else extractColumnValues_stats points col
      | None \<Rightarrow> extractColumnValues_stats points col)"

text \<open>
  The first pass over the values of one column: the number of NaN values, the sum, the
  sum of the squares, the minimum and the maximum.
\<close>

definition accumulate :: "fpenv \<Rightarrow> float64 list \<Rightarrow> int \<times> float64 \<times> float64 \<times> float64 \<times> float64" where
  "accumulate env values =
     foldl (\<lambda>(missing, sum, sumSq, mn, mx) v.
              if IsNaN v then (missing + 1, sum, sumSq, mn, mx)
              else (missing, fadd env sum v, fadd env sumSq (fmul env v v),
                    if flt v mn then v else mn, if fgt v mx then v else mx))
       (0, Fin 0, Fin 0, PInf, NInf) values"

definition medianOf :: "fpenv \<Rightarrow> float64 list \<Rightarrow> error + float64" where
  "medianOf env sortedValues =
     (let mid = int (length sortedValues) div 2
      in if int (length sortedValues) mod 2 = 0
         then
           (case index sortedValues (mid - 1) of
              Inl e \<Rightarrow> Inl e
            | Inr a \<Rightarrow>
                (case index sortedValues mid of
                   Inl e \<Rightarrow> Inl e
                 | Inr b \<Rightarrow> Inr (fdiv env (fadd env a b) (Fin 2))))
         else index sortedValues mid)"

definition countOutliers :: "fpenv \<Rightarrow> float64 list \<Rightarrow> float64 \<Rightarrow> float64 \<Rightarrow> float64 \<Rightarrow> int" where
  "countOutliers env values m sd zThreshold =
     foldl (\<lambda>n v. if \<not> IsNaN v \<and> fgt (fabs (fdiv env (fsub env v m) sd)) zThreshold
                   then n + 1 else n)
       0 values"

text \<open>The body of the loop of \<^verbatim>\<open>computeColumnStats\<close> for a column that has values.\<close>

definition columnStatsOf :: "fpenv \<Rightarrow> string \<Rightarrow> float64 list \<Rightarrow> error + ColumnStats" where
  "columnStatsOf env col values =
     (let count = int (length values);
          (missing, sum, sumSq, mn, mx) = accumulate env values;
          m = fdiv env sum (float64_of_int (count - missing));
          sortedValues = Float64s (filter (\<lambda>v. \<not> IsNaN v) values)
      in (case medianOf env sortedValues of
            Inl e \<Rightarrow> Inl e
          | Inr med \<Rightarrow>
              let variance = fsub env (fdiv env sumSq (float64_of_int (count - missing)))
                               (fmul env m m);
                  sd = fsqrt env variance;
                  stats = \<lparr> Column = col, Mean = m, Median = med, StdDev = sd,
                            Min_stat = mn, Max_stat = mx, Count = count,
                            MissingCount = missing, OutlierCount = 0,
                            OutlierMethod_stat = [], ZScoreThreshold_stat = Fin 0 \<rparr>
              in if fgt sd (Fin 0)
                 then Inr (stats\<lparr>OutlierMethod_stat := ''z-score'',
                                  ZScoreThreshold_stat := Fin 3,
                                  OutlierCount := countOutliers env values m sd (Fin 3)\<rparr>)
                 else Inr stats))"

text \<open>
  \<^verbatim>\<open>computeColumnStats\<close>: the error it returns is always nil, so the left summand is a
  panic. The configuration is passed and not used.
\<close>

fun columnStatsLoop ::
  "fpenv \<Rightarrow> DataPoint list \<Rightarrow> string list \<Rightarrow> ColumnStats list \<Rightarrow> error + ColumnStats list" where
  "columnStatsLoop env points [] statsList = Inr statsList"
| "columnStatsLoop env points (col # columns) statsList =
     (let values = extractColumnValues_stats points col
      in if length values = 0 then columnStatsLoop env points columns statsList
         else
           (case columnStatsOf env col values of
              Inl e \<Rightarrow> Inl e
            | Inr stats \<Rightarrow> columnStatsLoop env points columns (statsList @ [stats])))"

definition computeColumnStats ::
  "fpenv \<Rightarrow> Dataset \<Rightarrow> string list \<Rightarrow> StatsConfig \<Rightarrow> error + ColumnStats list" where
  "computeColumnStats env dataset columns config = columnStatsLoop env (Points dataset) columns []"

text \<open>
  The partition of the points by a key. A Go map has no order of iteration; the model
  keeps the keys in the order of their first point, and the report is a map again.
\<close>

fun appendTo :: "string \<Rightarrow> DataPoint \<Rightarrow> (string \<times> DataPoint list) list \<Rightarrow> (string \<times> DataPoint list) list" where
  "appendTo k point [] = [(k, [point])]"
| "appendTo k point ((k', ps) # groups) =
     (if k = k' then (k', ps @ [point]) # groups else (k', ps) # appendTo k point groups)"

definition groupBy :: "(DataPoint \<Rightarrow> string) \<Rightarrow> DataPoint list \<Rightarrow> (string \<times> DataPoint list) list" where
  "groupBy key points = foldl (\<lambda>groups point. appendTo (key point) point groups) [] points"

definition conditionKey :: "DataPoint \<Rightarrow> string" where
  "conditionKey point = (if Condition point = [] then ''unknown'' else Condition point)"

definition participantKey :: "DataPoint \<Rightarrow> string" where
  "participantKey point = (if ParticipantID point = [] then ''unknown'' else ParticipantID point)"

fun statsOfGroups ::
  "fpenv \<Rightarrow> Dataset \<Rightarrow> string list \<Rightarrow> StatsConfig \<Rightarrow> (string \<times> DataPoint list) list \<Rightarrow>
   (string \<rightharpoonup> ColumnStats list) \<Rightarrow> error + (string \<rightharpoonup> ColumnStats list)" where
  "statsOfGroups env dataset columns config [] report = Inr report"
| "statsOfGroups env dataset columns config ((k, points) # groups) report =
     (case computeColumnStats env \<lparr> Points = points, Columns = Columns dataset, Metadata = Map.empty \<rparr>
             columns config of
        Inl e \<Rightarrow> Inl e
      | Inr stats \<Rightarrow> statsOfGroups env dataset columns config groups (report(k \<mapsto> stats)))"

definition ComputeStats :: "fpenv \<Rightarrow> Dataset option \<Rightarrow> StatsConfig \<Rightarrow> error + StatsReport" where
  "ComputeStats env dataset_ptr config0 =
     (case dataset_ptr of
        None \<Rightarrow> Inl EmptyInput
      | Some dataset \<Rightarrow>
          if length (Points dataset) = 0 then Inl EmptyInput
          else
            let config = (if length (AnalyzeColumns config0) = 0
                          then config0\<lparr>AnalyzeColumns := Columns dataset\<rparr> else config0)
            in
              (case (if ByCondition config
                     then statsOfGroups env dataset (AnalyzeColumns config) config
                            (groupBy conditionKey (Points dataset)) Map.empty
                     else Inr Map.empty) of
                 Inl e \<Rightarrow> Inl e
               | Inr conditionStats \<Rightarrow>
                   (case (if ByParticipant config
                          then statsOfGroups env dataset (AnalyzeColumns config) config
                                 (groupBy participantKey (Points dataset)) Map.empty
                          else Inr Map.empty) of
                      Inl e \<Rightarrow> Inl e
                    | Inr participantStats \<Rightarrow>
                        if \<not> ByCondition config \<and> \<not> ByParticipant config
                        then
                          (case computeColumnStats env dataset (AnalyzeColumns config) config of
                             Inl e \<Rightarrow> Inl e
                           | Inr stats \<Rightarrow>
                               Inr \<lparr> OverallStats = stats, ConditionStats = conditionStats,
                                     ParticipantStats = participantStats \<rparr>)
                        else Inr \<lparr> OverallStats = [], ConditionStats = conditionStats,
                                   ParticipantStats = participantStats \<rparr>)))"

section \<open>Auxiliary definitions for the statements\<close>

text \<open>The points that reach the outlier stage of \<^verbatim>\<open>CleanDataset\<close>.\<close>

definition afterMissing :: "fpenv \<Rightarrow> Dataset \<Rightarrow> CleanConfig \<Rightarrow> DataPoint list" where
  "afterMissing env dataset config =
     (if fgt (MaxMissingPercent config) (Fin 0)
      then fst (filterMissingData env (Points dataset) (RequiredColumns config)
                  (MaxMissingPercent config))
      else Points dataset)"


text \<open>Constructors for the concrete inputs at which the theorems are instantiated.\<close>

definition mkPoint :: "float64 \<Rightarrow> string \<Rightarrow> string \<Rightarrow> (string \<times> float64) list \<Rightarrow> DataPoint" where
  "mkPoint t pid cond kvs =
     \<lparr> Timestamp = t, Data = map_of kvs, ParticipantID = pid, Condition = cond \<rparr>"

definition mkDataset :: "DataPoint list \<Rightarrow> string list \<Rightarrow> Dataset" where
  "mkDataset points cols = \<lparr> Points = points, Columns = cols, Metadata = Map.empty \<rparr>"

definition mkCleanConfig :: "string list \<Rightarrow> bool \<Rightarrow> string \<Rightarrow> float64 \<Rightarrow> float64 \<Rightarrow> CleanConfig" where
  "mkCleanConfig cols ro method pct z =
     \<lparr> RequiredColumns = cols, RemoveOutliers = ro, OutlierMethod = method,
       MaxMissingPercent = pct, ZScoreThreshold = z \<rparr>"

text \<open>Five points of one participant whose column \<open>x\<close> holds 1, 2, 3, 4 and 100.\<close>

definition fivePoints :: "DataPoint list" where
  "fivePoints = map (\<lambda>v. mkPoint (Fin v) ''p1'' ''A'' [(''x'', Fin v)]) [1, 2, 3, 4, 100]"

text \<open>The body of the loop of \<open>scanMinMax\<close> as a function of its own.\<close>

definition scanStep :: "float64 \<times> float64 \<Rightarrow> DataPoint \<Rightarrow> float64 \<times> float64" where
  "scanStep acc point =
     (if flt (Timestamp point) (fst acc) then Timestamp point else fst acc,
      if fgt (Timestamp point) (snd acc) then Timestamp point else snd acc)"

text \<open>The \<^verbatim>\<open>ClipInfo\<close> that \<^verbatim>\<open>ClipDataset\<close> holds once the timestamps are scanned.\<close>

definition baseInfo :: "fpenv \<Rightarrow> Dataset \<Rightarrow> float64 \<Rightarrow> float64 \<Rightarrow> ClipInfo" where
  "baseInfo env dataset mn mx =
     \<lparr> MinTimestamp = mn, MaxTimestamp = mx, TotalDuration = fsub env mx mn,
       OriginalPoints_clip = int (length (Points dataset)), ClippedPoints = 0,
       StartFrame = 0, EndFrame = 0, ActualStartTime = Fin 0, ActualEndTime = Fin 0 \<rparr>"

text \<open>A dataset in temporal order: the timestamps never decrease.\<close>

definition timeOrdered :: "DataPoint list \<Rightarrow> bool" where
  "timeOrdered points = sorted_wrt (\<lambda>a b. fle (Timestamp a) (Timestamp b)) points"

text \<open>The effective bounds of a time-ordered dataset: a bound that is not requested is the
  first or the last timestamp.\<close>

definition effectiveStart :: "ClipConfig \<Rightarrow> DataPoint list \<Rightarrow> float64" where
  "effectiveStart config points =
     (case StartTime config of Some s \<Rightarrow> s | None \<Rightarrow> Timestamp (hd points))"

definition effectiveEnd :: "ClipConfig \<Rightarrow> DataPoint list \<Rightarrow> float64" where
  "effectiveEnd config points =
     (case EndTime config of Some e \<Rightarrow> e | None \<Rightarrow> Timestamp (last points))"

definition mkClipConfig :: "float64 option \<Rightarrow> float64 option \<Rightarrow> ClipConfig" where
  "mkClipConfig s e = \<lparr> StartTime = s, EndTime = e \<rparr>"

text \<open>Points at the timestamps 0, 10, 20 and 30, at one timestamp, and at 0 and 10.\<close>

definition fourPoints :: "DataPoint list" where
  "fourPoints = map (\<lambda>v. mkPoint (Fin v) ''p1'' ''A'' [(''x'', Fin v)]) [0, 10, 20, 30]"

definition sameTimePoints :: "DataPoint list" where
  "sameTimePoints = map (\<lambda>v. mkPoint (Fin 7) ''p1'' ''A'' [(''x'', Fin v)]) [1, 2, 3]"

definition twoPoints :: "DataPoint list" where
  "twoPoints = map (\<lambda>v. mkPoint (Fin v) ''p1'' ''A'' [(''x'', Fin v)]) [0, 10]"

definition mkStatsConfig :: "string list \<Rightarrow> bool \<Rightarrow> bool \<Rightarrow> StatsConfig" where
  "mkStatsConfig cols byCond byPart =
     \<lparr> AnalyzeColumns = cols, ByCondition = byCond, ByParticipant = byPart \<rparr>"

text \<open>Two points with the column \<open>x\<close> present: NaN in the first, 1 in the second.\<close>

definition nanPoints :: "DataPoint list" where
  "nanPoints = [mkPoint (Fin 0) ''p1'' ''A'' [(''x'', NaN)], mkPoint (Fin 1) ''p1'' ''A'' [(''x'', Fin 1)]]"

text \<open>Four points under the conditions \<open>A\<close>, \<open>B\<close>, the empty label and \<open>A\<close>.\<close>

definition abPoints :: "DataPoint list" where
  "abPoints =
     [mkPoint (Fin 0) ''p1'' ''A'' [(''x'', Fin 1)],
      mkPoint (Fin 1) ''p2'' ''B'' [(''x'', Fin 2)],
      mkPoint (Fin 2) ''p1'' [] [(''x'', Fin 3)],
      mkPoint (Fin 3) ''p2'' ''A'' [(''x'', Fin 4)]]"


section \<open>Assumptions on the platform\<close>

text \<open>
  Two properties of rounding to binary64 are used where a result depends on arithmetic:
  rounding is monotone, and a number \<open>i / 2^e\<close> with \<open>\<bar>i\<bar> \<le> 2^53\<close> and \<open>e \<le> 1022\<close> is a
  binary64 number, so rounding returns it. Round-to-nearest of IEEE 754 has both.
\<close>

definition fp_ok :: "fpenv \<Rightarrow> bool" where
  "fp_ok env =
     ((\<forall>x y. x \<le> y \<longrightarrow> fle (rnd env x) (rnd env y)) \<and>
      (\<forall>(i::int) (e::nat). \<bar>i\<bar> \<le> 2 ^ 53 \<and> e \<le> 1022 \<longrightarrow>
          rnd env (of_int i / 2 ^ e) = Fin (of_int i / 2 ^ e)))"

text \<open>
  The environment without rounding, for evaluating the definitions on inputs whose
  intermediate results are all binary64 numbers.
\<close>

definition exact :: fpenv where
  "exact = \<lparr> rnd = Fin, cnv = (\<lambda>_. 0) \<rparr>"


section \<open>Facts about float64 and the platform\<close>

lemma fp_ok_exact: "fp_ok exact"
  by (auto simp: fp_ok_def exact_def fle_def feq_def IsNaN_def)

lemma rnd_int: "fp_ok env \<Longrightarrow> \<bar>i\<bar> \<le> 2 ^ 53 \<Longrightarrow> rnd env (of_int i) = Fin (of_int i)"
proof -
  assume a: "fp_ok env" "\<bar>i\<bar> \<le> 2 ^ 53"
  then have "rnd env (of_int i / 2 ^ (0::nat)) = Fin (of_int i / 2 ^ (0::nat))"
    unfolding fp_ok_def by blast
  then show ?thesis by simp
qed

lemma rnd_between:
  assumes ok: "fp_ok env" and x: "0 \<le> x" "x \<le> of_int m" and m: "m \<le> 2 ^ 53"
  shows "\<exists>r. rnd env x = Fin r \<and> 0 \<le> r \<and> r \<le> of_int m"
proof -
  have m0: "0 \<le> m" using x by linarith
  have z: "rnd env 0 = Fin 0" using rnd_int [OF ok, of 0] by simp
  have mm: "rnd env (of_int m) = Fin (of_int m)" using rnd_int [OF ok, of m] m m0 by simp
  have lo: "fle (Fin 0) (rnd env x)" using ok x(1) z unfolding fp_ok_def by metis
  have hi: "fle (rnd env x) (Fin (of_int m))" using ok x(2) mm unfolding fp_ok_def by metis
  show ?thesis using lo hi by (cases "rnd env x") (auto simp: fle_def feq_def IsNaN_def)
qed

lemma rnd_dyadic:
  "fp_ok env \<Longrightarrow> \<bar>i\<bar> \<le> 2 ^ 53 \<Longrightarrow> e \<le> 1022 \<Longrightarrow>
   rnd env (of_int i / 2 ^ e) = Fin (of_int i / 2 ^ e)"
  unfolding fp_ok_def by blast

lemma rnd_small:
  assumes "fp_ok env"
  shows "rnd env 0 = Fin 0" "rnd env 1 = Fin 1" "rnd env (1 / 2) = Fin (1 / 2)"
    "rnd env (3 / 2) = Fin (3 / 2)" "rnd env (5 / 2) = Fin (5 / 2)"
  using rnd_dyadic [OF assms, of 0 0] rnd_dyadic [OF assms, of 1 0] rnd_dyadic [OF assms, of 1 1]
    rnd_dyadic [OF assms, of 3 1] rnd_dyadic [OF assms, of 5 1]
  by simp_all

lemma go_int_Fin_int:
  "0 \<le> a \<Longrightarrow> a \<le> of_int m \<Longrightarrow> m \<le> 2 ^ 53 \<Longrightarrow> go_int env (Fin a) = \<lfloor>a\<rfloor>"
proof -
  assume a: "0 \<le> a" "a \<le> of_int m" "m \<le> 2 ^ 53"
  have "\<lfloor>a\<rfloor> \<le> m" using a(2) by (simp add: floor_le_iff)
  moreover have "0 \<le> \<lfloor>a\<rfloor>" using a(1) by simp
  moreover have "(2::int) ^ 53 < 2 ^ 63" by simp
  ultimately show ?thesis using a by (simp add: go_int_def trunc_def)
qed

lemma floor_ceiling_bounds:
  fixes kr :: real and m :: int
  assumes "0 \<le> kr" "kr \<le> of_int m"
  shows "0 \<le> \<lfloor>kr\<rfloor>" "\<lfloor>kr\<rfloor> \<le> m" "0 \<le> \<lceil>kr\<rceil>" "\<lceil>kr\<rceil> \<le> m"
proof -
  show "0 \<le> \<lfloor>kr\<rfloor>" using assms(1) by simp
  show "\<lfloor>kr\<rfloor> \<le> m" using assms(2) floor_mono [of kr "of_int m"] by simp
  show "0 \<le> \<lceil>kr\<rceil>" using assms(1) by (simp add: order_trans [OF _ le_of_int_ceiling])
  show "\<lceil>kr\<rceil> \<le> m" using assms(2) by (simp add: ceiling_le_iff)
qed

lemma feq_floor_ceiling:
  "feq (Fin (of_int \<lfloor>kr\<rfloor>)) (Fin (of_int \<lceil>kr\<rceil>)) \<longleftrightarrow> kr \<in> \<int>"
proof
  assume "feq (Fin (of_int \<lfloor>kr\<rfloor>)) (Fin (of_int \<lceil>kr\<rceil>))"
  then have "\<lfloor>kr\<rfloor> = \<lceil>kr\<rceil>" by (simp add: feq_def)
  then have "of_int \<lfloor>kr\<rfloor> = kr"
    using of_int_floor_le [of kr] le_of_int_ceiling [of kr] by simp
  then show "kr \<in> \<int>" by (metis Ints_of_int)
next
  assume "kr \<in> \<int>"
  then show "feq (Fin (of_int \<lfloor>kr\<rfloor>)) (Fin (of_int \<lceil>kr\<rceil>))"
    by (auto simp: feq_def IsNaN_def elim: Ints_cases)
qed

lemma ceiling_minus_self: "kr \<notin> \<int> \<Longrightarrow> of_int \<lceil>kr\<rceil> - kr = 1 - frac (kr::real)"
proof -
  assume a: "kr \<notin> \<int>"
  have "kr \<noteq> of_int \<lfloor>kr\<rfloor>" using a by (metis Ints_of_int)
  then show ?thesis by (simp add: frac_def ceiling_altdef)
qed

section \<open>Package cleaner: percentile\<close>

text \<open>The rank of a percentile between 0 and 100 is finite and within the index range.\<close>

lemma rank_in_range:
  assumes ok: "fp_ok env" and n: "0 \<le> m" "m \<le> 2 ^ 53" and p: "0 \<le> p" "p \<le> 100"
  shows "\<exists>kr. fmul env (fdiv env (Fin p) (Fin 100)) (float64_of_int m) = Fin kr
           \<and> 0 \<le> kr \<and> kr \<le> of_int m"
proof -
  have "0 \<le> p / 100" "p / 100 \<le> of_int 1" using p by auto
  from rnd_between [OF ok this] obtain q where q: "rnd env (p / 100) = Fin q" "0 \<le> q" "q \<le> 1"
    by auto
  have "0 \<le> q * of_int m" "q * of_int m \<le> of_int m" using q n
    by (auto simp: mult_left_le_one_le)
  from rnd_between [OF ok this n(2)] obtain kr where
    "rnd env (q * of_int m) = Fin kr" "0 \<le> kr" "kr \<le> of_int m" by auto
  then show ?thesis using q by (simp add: float64_of_int_def)
qed

lemma percentile_general:
  assumes ok: "fp_ok env" and ne: "srt \<noteq> []" and len: "int (length srt) \<le> 2 ^ 53"
    and p: "0 \<le> p" "p \<le> 100"
  shows "\<exists>kr. fmul env (fdiv env (Fin p) (Fin 100)) (float64_of_int (int (length srt) - 1)) = Fin kr
           \<and> 0 \<le> kr \<and> kr \<le> of_int (int (length srt) - 1)
           \<and> percentile env srt (Fin p) =
               Inr (if kr \<in> \<int> then srt ! nat \<lfloor>kr\<rfloor>
                    else fadd env (fmul env (srt ! nat \<lfloor>kr\<rfloor>) (rnd env (1 - frac kr)))
                                  (fmul env (srt ! nat \<lceil>kr\<rceil>) (rnd env (frac kr))))"
proof -
  define m where "m = int (length srt) - 1"
  have m: "0 \<le> m" "m \<le> 2 ^ 53" using ne len by (auto simp: m_def Suc_le_eq)
  from rank_in_range [OF ok m p] obtain kr where
    k: "fmul env (fdiv env (Fin p) (Fin 100)) (float64_of_int m) = Fin kr" "0 \<le> kr" "kr \<le> of_int m"
    by blast
  note b = floor_ceiling_bounds [OF k(2,3)]
  have gk: "go_int env (Fin kr) = \<lfloor>kr\<rfloor>" using go_int_Fin_int [OF k(2,3) m(2)] .
  have gf: "go_int env (Fin (of_int \<lfloor>kr\<rfloor>)) = \<lfloor>kr\<rfloor>"
    using go_int_Fin_int [of "of_int \<lfloor>kr\<rfloor>" m env] b m by simp
  have gc: "go_int env (Fin (of_int \<lceil>kr\<rceil>)) = \<lceil>kr\<rceil>"
    using go_int_Fin_int [of "of_int \<lceil>kr\<rceil>" m env] b m by simp
  have i1: "index srt \<lfloor>kr\<rfloor> = Inr (srt ! nat \<lfloor>kr\<rfloor>)"
    using b by (simp add: index_def m_def)
  have i2: "index srt \<lceil>kr\<rceil> = Inr (srt ! nat \<lceil>kr\<rceil>)"
    using b by (simp add: index_def m_def)
  have w: "kr \<notin> \<int> \<Longrightarrow> fsub env (Fin (of_int \<lceil>kr\<rceil>)) (Fin kr) = rnd env (1 - frac kr)"
    by (simp add: fsub_def ceiling_minus_self)
  have w2: "fsub env (Fin kr) (Fin (of_int \<lfloor>kr\<rfloor>)) = rnd env (frac kr)"
    by (simp add: fsub_def frac_def)
  have "percentile env srt (Fin p) =
               Inr (if kr \<in> \<int> then srt ! nat \<lfloor>kr\<rfloor>
                    else fadd env (fmul env (srt ! nat \<lfloor>kr\<rfloor>) (rnd env (1 - frac kr)))
                                  (fmul env (srt ! nat \<lceil>kr\<rceil>) (rnd env (frac kr))))"
    using ne k(1) gk gf gc i1 i2 w w2 feq_floor_ceiling [of kr]
    by (simp add: percentile_def m_def Let_def)
  then show ?thesis using k by (auto simp: m_def)
qed

lemma percentile_1234:
  "fp_ok env \<Longrightarrow> percentile env [Fin 1, Fin 2, Fin 3, Fin 4] (Fin 50) = Inr (Fin (5 / 2))"
  by (simp add: percentile_def float64_of_int_def rnd_small Let_def feq_def IsNaN_def index_def
      go_int_def trunc_def fsub_def)

lemma percentile_123:
  "fp_ok env \<Longrightarrow> percentile env [Fin 1, Fin 2, Fin 3] (Fin 50) = Inr (Fin 2)"
  by (simp add: percentile_def float64_of_int_def rnd_small Let_def feq_def IsNaN_def index_def
      go_int_def trunc_def fsub_def)

text \<open>
  Claim C3. For a non-empty slice of \<open>n\<close> values and a percentile \<open>p\<close> between 0 and
  100, \<^verbatim>\<open>percentile\<close> computes the rank \<open>k = (p/100)*(n-1)\<close> in float64, which is a
  finite number between 0 and \<open>n-1\<close>; it returns the element at index \<open>k\<close> when \<open>k\<close> is
  an integer, and otherwise the sum of the element at \<open>floor k\<close> weighted by one minus the
  fractional part of \<open>k\<close> and the element at \<open>ceil k\<close> weighted by the fractional part. No
  index is out of range. The percentile 50 of \<open>[1,2,3,4]\<close> is 2.5 and that of
  \<open>[1,2,3]\<close> is 2.
\<close>

theorem percentile_interpolates:
  assumes "fp_ok env" and "srt \<noteq> []" and "int (length srt) \<le> 2 ^ 53" and "0 \<le> p" and "p \<le> 100"
  shows "(\<exists>kr. fmul env (fdiv env (Fin p) (Fin 100)) (float64_of_int (int (length srt) - 1)) = Fin kr
            \<and> 0 \<le> kr \<and> kr \<le> of_int (int (length srt) - 1)
            \<and> percentile env srt (Fin p) =
                Inr (if kr \<in> \<int> then srt ! nat \<lfloor>kr\<rfloor>
                     else fadd env (fmul env (srt ! nat \<lfloor>kr\<rfloor>) (rnd env (1 - frac kr)))
                                   (fmul env (srt ! nat \<lceil>kr\<rceil>) (rnd env (frac kr)))))
         \<and> percentile env [Fin 1, Fin 2, Fin 3, Fin 4] (Fin 50) = Inr (Fin (5 / 2))
         \<and> percentile env [Fin 1, Fin 2, Fin 3] (Fin 50) = Inr (Fin 2)"
  using percentile_general [OF assms] percentile_1234 [OF assms(1)] percentile_123 [OF assms(1)]
  by blast

theorem percentile_interpolates_witness:
  "fp_ok exact \<and> [Fin 1, Fin 2, Fin 3, Fin 4] \<noteq> [] \<and> (0::real) \<le> 50 \<and> (50::real) \<le> 100
   \<and> percentile exact [Fin 1, Fin 2, Fin 3, Fin 4] (Fin 50) = Inr (Fin (5 / 2))"
  using percentile_interpolates [OF fp_ok_exact, of "[Fin 1, Fin 2, Fin 3, Fin 4]" 50] fp_ok_exact
  by simp

section \<open>Package cleaner: the missing-data filter\<close>

lemma filter_loop:
  "foldl (\<lambda>(filtered, removedCount) p.
            if P p then (filtered @ [p], removedCount) else (filtered, removedCount + 1))
     (acc, n) points
   = (acc @ filter P points, n + int (length (filter (\<lambda>p. \<not> P p) points)))"
  by (induction points arbitrary: acc n) auto



lemma filterMissingData_filter:
  "filterMissingData env points cols pct =
     (filter (\<lambda>p. missingIn p cols \<le> maxMissingOf env cols pct) points,
      int (length (filter (\<lambda>p. \<not> missingIn p cols \<le> maxMissingOf env cols pct) points)))"
  by (simp add: filterMissingData_def Let_def filter_loop)





section \<open>Package cleaner: the stages never panic\<close>

lemma length_extractColumnValues: "length (extractColumnValues points col) \<le> length points"
  by (induction points) (auto split: option.splits)

lemma length_Float64s: "length (Float64s xs) = length xs"
  by (simp add: Float64s_def)

lemma percentile_returns:
  assumes "fp_ok env" "srt \<noteq> []" "int (length srt) \<le> 2 ^ 53" "0 \<le> p" "p \<le> 100"
  shows "\<exists>v. percentile env srt (Fin p) = Inr v"
  using percentile_general [OF assms] by blast

lemma calculateIQRBounds_returns:
  assumes ok: "fp_ok env" and len: "int (length values) \<le> 2 ^ 53"
  shows "\<exists>b. calculateIQRBounds env values = Inr b"
proof (cases "values = []")
  case True
  then show ?thesis by (simp add: calculateIQRBounds_def)
next
  case False
  then have ne: "Float64s values \<noteq> []" using length_Float64s [of "values"] by (metis length_0_conv)
  have l: "int (length (Float64s values)) \<le> 2 ^ 53" using len by (simp add: length_Float64s)
  obtain q1 where q1: "percentile env (Float64s values) (Fin 25) = Inr q1"
    using percentile_returns [OF ok ne l, of 25] by auto
  obtain q3 where q3: "percentile env (Float64s values) (Fin 75) = Inr q3"
    using percentile_returns [OF ok ne l, of 75] by auto
  show ?thesis using False q1 q3 by (simp add: calculateIQRBounds_def Let_def)
qed

lemma boundsBy_returns:
  assumes ok: "fp_ok env" and len: "int (length values) \<le> 2 ^ 53"
  shows "\<exists>b. boundsBy env method z values = Inr b"
  using calculateIQRBounds_returns [OF assms] by (auto simp: boundsBy_def)

lemma outlierBoundsOf_returns:
  assumes ok: "fp_ok env" and len: "int (length points) \<le> 2 ^ 53"
  shows "\<exists>m. outlierBoundsOf env points method z cols acc = Inr m"
proof (induction cols arbitrary: acc)
  case Nil
  then show ?case by simp
next
  case (Cons col cols)
  have "int (length (extractColumnValues points col)) \<le> 2 ^ 53"
    using len length_extractColumnValues [of points col] by linarith
  from boundsBy_returns [OF ok this] obtain lo hi where
    "boundsBy env method z (extractColumnValues points col) = Inr (lo, hi)" by (metis surj_pair)
  then show ?case using Cons.IH by (simp add: Let_def)
qed

lemma filterOutliers_returns:
  assumes ok: "fp_ok env" and len: "int (length points) \<le> 2 ^ 53"
  shows "\<exists>P. filterOutliers env points cols method z =
           Inr (filter P points, int (length (filter (\<lambda>p. \<not> P p) points)))"
proof (cases "cols = []")
  case True
  have "filter (\<lambda>p. True) points = points" by simp
  then show ?thesis using True
    by (auto simp: filterOutliers_def intro!: exI [of _ "\<lambda>p. True"])
next
  case False
  obtain m where "outlierBoundsOf env points method z cols Map.empty = Inr m"
    using outlierBoundsOf_returns [OF assms] by blast
  then show ?thesis using False
    by (auto simp: filterOutliers_def filter_loop intro!: exI [of _ "\<lambda>p. \<not> isOutlier m p cols"])
qed

lemma outlierBoundsOf_Nil: "outlierBoundsOf env [] method z cols acc = Inr acc"
  by (induction cols arbitrary: acc) auto

lemma filterOutliers_Nil: "filterOutliers env [] cols method z = Inr ([], 0)"
  by (simp add: filterOutliers_def outlierBoundsOf_Nil)

lemma filterMissingData_Nil: "filterMissingData env [] cols pct = ([], 0)"
  by (simp add: filterMissingData_def)

lemma length_afterMissing: "length (afterMissing env ds cfg) \<le> length (Points ds)"
  by (simp add: afterMissing_def filterMissingData_filter)

lemma afterMissing_RemoveOutliers [simp]:
  "afterMissing env ds (cfg\<lparr>RemoveOutliers := b\<rparr>) = afterMissing env ds cfg"
  by (simp add: afterMissing_def)

lemma CleanDataset_result:
  assumes ok: "fp_ok env" and len: "int (length (Points ds)) \<le> 2 ^ 53"
  shows "\<exists>P st. CleanDataset env (Some ds) cfg =
            Inr (cleanedDatasetOf env ds cfg
                   (if RemoveOutliers cfg then filter P (afterMissing env ds cfg)
                    else afterMissing env ds cfg) st, st)
          \<and> OriginalPoints st = int (length (Points ds))
          \<and> FinalPoints st = int (length (if RemoveOutliers cfg then filter P (afterMissing env ds cfg)
                    else afterMissing env ds cfg))"
proof -
  have l: "int (length (afterMissing env ds cfg)) \<le> 2 ^ 53"
    using len length_afterMissing [of env ds cfg] by linarith
  obtain P where P: "filterOutliers env (afterMissing env ds cfg) (RequiredColumns cfg)
       (OutlierMethod cfg) (ZScoreThreshold cfg) =
     Inr (filter P (afterMissing env ds cfg),
          int (length (filter (\<lambda>p. \<not> P p) (afterMissing env ds cfg))))"
    using filterOutliers_returns [OF ok l] by blast
  show ?thesis
  proof (cases "fgt (MaxMissingPercent cfg) (Fin 0)")
    case True
    then show ?thesis using P
      by (cases "RemoveOutliers cfg")
         (auto simp: CleanDataset_def afterMissing_def filterMissingData_filter Let_def)
  next
    case False
    then show ?thesis using P
      by (cases "RemoveOutliers cfg")
         (auto simp: CleanDataset_def afterMissing_def Let_def)
  qed
qed

lemma CleanDataset_empty:
  assumes "Points ds = []"
  shows "CleanDataset env (Some ds) cfg =
           (let st = \<lparr> OriginalPoints = 0, RemovedMissing = 0, RemovedOutliers = 0, FinalPoints = 0 \<rparr>
            in Inr (cleanedDatasetOf env ds cfg [] st, st))"
  using assms
  by (simp add: CleanDataset_def filterMissingData_Nil filterOutliers_Nil Let_def)


lemma CleanDataset_fivePoints:
  "map Timestamp (Points (fst (projr (CleanDataset exact (Some (mkDataset fivePoints [''x'']))
      (mkCleanConfig [''x''] True ''iqr'' (Fin 0) (Fin 3))))))
   = [Fin 1, Fin 2, Fin 3, Fin 4]"
  by (simp add: CleanDataset_def mkDataset_def mkCleanConfig_def fivePoints_def mkPoint_def fgt_def
      filterOutliers_def boundsBy_def calculateIQRBounds_def Float64s_def percentile_def
      float64_of_int_def exact_def Let_def feq_def IsNaN_def index_def go_int_def trunc_def fsub_def
      cleanedDatasetOf_def)






section \<open>Package cleaner: the claims\<close>




text \<open>
  Claim C8. With the same dataset and the same other parameters, \<^verbatim>\<open>CleanDataset\<close> with
  outlier removal returns, and its final count is at most the final count without outlier
  removal; its points are a selection of the points returned without outlier removal, in
  the same order.
\<close>

theorem outlier_removal_monotone:
  assumes "fp_ok env" and "int (length (Points ds)) \<le> 2 ^ 53"
  shows "\<exists>o1 s1 o2 s2 P.
           CleanDataset env (Some ds) (cfg\<lparr>RemoveOutliers := True\<rparr>) = Inr (o1, s1)
         \<and> CleanDataset env (Some ds) (cfg\<lparr>RemoveOutliers := False\<rparr>) = Inr (o2, s2)
         \<and> FinalPoints s1 \<le> FinalPoints s2
         \<and> Points o1 = filter P (Points o2)"
proof -
  from CleanDataset_result [OF assms, of "cfg\<lparr>RemoveOutliers := True\<rparr>"]
  obtain P s1 where on:
    "CleanDataset env (Some ds) (cfg\<lparr>RemoveOutliers := True\<rparr>) =
       Inr (cleanedDatasetOf env ds (cfg\<lparr>RemoveOutliers := True\<rparr>)
              (filter P (afterMissing env ds cfg)) s1, s1)"
    "FinalPoints s1 = int (length (filter P (afterMissing env ds cfg)))"
    by auto
  from CleanDataset_result [OF assms, of "cfg\<lparr>RemoveOutliers := False\<rparr>"]
  obtain s2 where off:
    "CleanDataset env (Some ds) (cfg\<lparr>RemoveOutliers := False\<rparr>) =
       Inr (cleanedDatasetOf env ds (cfg\<lparr>RemoveOutliers := False\<rparr>)
              (afterMissing env ds cfg) s2, s2)"
    "FinalPoints s2 = int (length (afterMissing env ds cfg))"
    by auto
  have "FinalPoints s1 \<le> FinalPoints s2" using on(2) off(2) by simp
  moreover have "Points (cleanedDatasetOf env ds (cfg\<lparr>RemoveOutliers := True\<rparr>)
              (filter P (afterMissing env ds cfg)) s1)
     = filter P (Points (cleanedDatasetOf env ds (cfg\<lparr>RemoveOutliers := False\<rparr>)
              (afterMissing env ds cfg) s2))"
    by (simp add: cleanedDatasetOf_def)
  ultimately show ?thesis using on(1) off(1) by blast
qed

theorem outlier_removal_monotone_witness:
  "fp_ok exact \<and> int (length (Points (mkDataset fivePoints [''x'']))) \<le> 2 ^ 53
   \<and> (\<exists>o1 s1 o2 s2 P.
         CleanDataset exact (Some (mkDataset fivePoints [''x'']))
           ((mkCleanConfig [''x''] False ''iqr'' (Fin 0) (Fin 3))\<lparr>RemoveOutliers := True\<rparr>)
           = Inr (o1, s1)
       \<and> CleanDataset exact (Some (mkDataset fivePoints [''x'']))
           ((mkCleanConfig [''x''] False ''iqr'' (Fin 0) (Fin 3))\<lparr>RemoveOutliers := False\<rparr>)
           = Inr (o2, s2)
       \<and> FinalPoints s1 \<le> FinalPoints s2
       \<and> Points o1 = filter P (Points o2))"
proof -
  have l: "int (length (Points (mkDataset fivePoints [''x'']))) \<le> 2 ^ 53"
    by (simp add: mkDataset_def fivePoints_def)
  show ?thesis
    using outlier_removal_monotone [OF fp_ok_exact l,
        of "mkCleanConfig [''x''] False ''iqr'' (Fin 0) (Fin 3)"] fp_ok_exact l
    by simp
qed

text \<open>
  Claim C9. \<^verbatim>\<open>CleanDataset\<close> has no error return: for every dataset and every
  configuration it returns a cleaned dataset and the counts. A dataset without points is
  accepted and gives a dataset without points and zero counts. For a dataset with points
  the absence of a panic rests on the rank of \<^verbatim>\<open>percentile\<close> staying within the slice,
  which holds under the assumptions on rounding.
\<close>

theorem CleanDataset_returns:
  "(Points ds = [] \<longrightarrow>
      (\<exists>out st. CleanDataset env (Some ds) cfg = Inr (out, st)
         \<and> Points out = [] \<and> Columns out = Columns ds
         \<and> OriginalPoints st = 0 \<and> FinalPoints st = 0))
   \<and> (fp_ok env \<and> int (length (Points ds)) \<le> 2 ^ 53 \<longrightarrow>
      (\<exists>out st. CleanDataset env (Some ds) cfg = Inr (out, st)
         \<and> Columns out = Columns ds
         \<and> OriginalPoints st = int (length (Points ds))
         \<and> FinalPoints st = int (length (Points out))))"
proof (intro conjI impI)
  assume "Points ds = []"
  then show "\<exists>out st. CleanDataset env (Some ds) cfg = Inr (out, st)
         \<and> Points out = [] \<and> Columns out = Columns ds
         \<and> OriginalPoints st = 0 \<and> FinalPoints st = 0"
    by (simp add: CleanDataset_empty cleanedDatasetOf_def Let_def)
next
  assume a: "fp_ok env \<and> int (length (Points ds)) \<le> 2 ^ 53"
  then have ok: "fp_ok env" and len: "int (length (Points ds)) \<le> 2 ^ 53" by blast+
  from CleanDataset_result [OF ok len, of cfg] obtain P st where
    r: "CleanDataset env (Some ds) cfg =
            Inr (cleanedDatasetOf env ds cfg
                   (if RemoveOutliers cfg then filter P (afterMissing env ds cfg)
                    else afterMissing env ds cfg) st, st)"
     "OriginalPoints st = int (length (Points ds))"
     "FinalPoints st = int (length (if RemoveOutliers cfg then filter P (afterMissing env ds cfg)
                    else afterMissing env ds cfg))"
    by blast
  show "\<exists>out st. CleanDataset env (Some ds) cfg = Inr (out, st)
         \<and> Columns out = Columns ds
         \<and> OriginalPoints st = int (length (Points ds))
         \<and> FinalPoints st = int (length (Points out))"
    using r by (auto simp: cleanedDatasetOf_def)
qed

theorem CleanDataset_returns_witness:
  "Points (mkDataset [] [''x'']) = []
   \<and> (\<exists>out st. CleanDataset exact (Some (mkDataset [] [''x'']))
                    (mkCleanConfig [''x''] True ''zscore'' (Fin 10) (Fin 3)) = Inr (out, st)
         \<and> Points out = [] \<and> Columns out = [''x'']
         \<and> OriginalPoints st = 0 \<and> FinalPoints st = 0)
   \<and> fp_ok exact
   \<and> (\<exists>out st. CleanDataset exact (Some (mkDataset fivePoints [''x'']))
                    (mkCleanConfig [''x''] True ''iqr'' (Fin 0) (Fin 3)) = Inr (out, st)
         \<and> Columns out = [''x'']
         \<and> OriginalPoints st = 5
         \<and> FinalPoints st = int (length (Points out)))"
  using CleanDataset_returns [of "mkDataset [] [''x'']" exact
           "mkCleanConfig [''x''] True ''zscore'' (Fin 10) (Fin 3)"]
        CleanDataset_returns [of "mkDataset fivePoints [''x'']" exact
           "mkCleanConfig [''x''] True ''iqr'' (Fin 0) (Fin 3)"]
        fp_ok_exact
  by (simp add: mkDataset_def fivePoints_def)




section \<open>Package clipper: float64 order, the scan and the frames\<close>

lemma fle_trans: "fle a b \<Longrightarrow> fle b c \<Longrightarrow> fle a c"
  by (cases a; cases b; cases c) (auto simp: fle_def feq_def IsNaN_def)

lemma fle_antisym: "fle a b \<Longrightarrow> fle b a \<Longrightarrow> a = b"
  by (cases a; cases b) (auto simp: fle_def feq_def IsNaN_def)

lemma flt_not_fle: "flt a b \<Longrightarrow> \<not> fle b a"
  by (cases a; cases b) (auto simp: fle_def feq_def IsNaN_def)

lemma fle_not_NaN: "fle a b \<Longrightarrow> \<not> IsNaN a \<and> \<not> IsNaN b"
  by (cases a; cases b) (auto simp: fle_def feq_def IsNaN_def)

lemma fle_total: "\<not> IsNaN a \<Longrightarrow> \<not> IsNaN b \<Longrightarrow> fle a b \<or> flt b a"
  by (cases a; cases b) (auto simp: fle_def feq_def IsNaN_def)

lemma fle_refl: "\<not> IsNaN a \<Longrightarrow> fle a a"
  by (cases a) (auto simp: fle_def feq_def IsNaN_def)

lemma fle_iff_not_flt: "\<not> IsNaN a \<Longrightarrow> \<not> IsNaN b \<Longrightarrow> fle a b \<longleftrightarrow> \<not> flt b a"
  by (cases a; cases b) (auto simp: fle_def feq_def IsNaN_def)

lemma flt_PInf: "\<not> flt t PInf \<Longrightarrow> \<not> IsNaN t \<Longrightarrow> t = PInf"
  by (cases t) (auto simp: IsNaN_def)

lemma flt_NInf: "\<not> flt NInf t \<Longrightarrow> \<not> IsNaN t \<Longrightarrow> t = NInf"
  by (cases t) (auto simp: IsNaN_def)

lemma scanMinMax_fold: "scanMinMax points = foldl scanStep (PInf, NInf) points"
proof -
  have "(\<lambda>(mn, mx) point.
              (if flt (Timestamp point) mn then Timestamp point else mn,
               if fgt (Timestamp point) mx then Timestamp point else mx)) = scanStep"
    by (auto simp: scanStep_def fun_eq_iff)
  then show ?thesis by (simp add: scanMinMax_def)
qed

lemma scanStep_idem:
  "Timestamp q = Timestamp p \<Longrightarrow> scanStep (scanStep acc p) q = scanStep acc p"
  by (cases "Timestamp p"; cases "fst acc"; cases "snd acc") (auto simp: scanStep_def fgt_def)

lemma scan_same:
  assumes "\<forall>p\<in>set points. Timestamp p = t"
  shows "Timestamp p = t \<Longrightarrow> foldl scanStep (scanStep acc p) points = scanStep acc p"
  using assms
proof (induction points)
  case Nil
  then show ?case by simp
next
  case (Cons q points)
  have "Timestamp q = Timestamp p" using Cons.prems by simp
  then have "scanStep (scanStep acc p) q = scanStep acc p" by (rule scanStep_idem)
  then show ?case using Cons by simp
qed

lemma scanMinMax_same:
  assumes a: "\<forall>p\<in>set points. Timestamp p = t" and ne: "points \<noteq> []"
  shows "scanMinMax points = (if IsNaN t then (PInf, NInf) else (t, t))"
proof -
  obtain x xs where p: "points = x # xs" using ne by (cases points) auto
  have tx: "Timestamp x = t" and r: "\<forall>p\<in>set xs. Timestamp p = t" using a p by simp_all
  have "foldl scanStep (scanStep (PInf, NInf) x) xs = scanStep (PInf, NInf) x"
    using scan_same [OF r tx] .
  moreover have "scanStep (PInf, NInf) x = (if IsNaN t then (PInf, NInf) else (t, t))"
    using tx by (cases t) (auto simp: scanStep_def fgt_def IsNaN_def)
  ultimately show ?thesis by (simp add: scanMinMax_fold p)
qed

lemma scan_sorted_aux:
  assumes "sorted_wrt (\<lambda>a b. fle (Timestamp a) (Timestamp b)) ys"
    and "\<forall>y\<in>set ys. fle m (Timestamp y)"
    and "ys \<noteq> [] \<longrightarrow> fle M (Timestamp (hd ys))"
  shows "foldl scanStep (m, M) ys = (m, if ys = [] then M else Timestamp (last ys))"
  using assms
proof (induction ys arbitrary: M)
  case Nil
  then show ?case by simp
next
  case (Cons y ys)
  have my: "fle m (Timestamp y)" using Cons.prems(2) by simp
  have nm: "\<not> flt (Timestamp y) m" using my flt_not_fle by blast
  have My: "fle M (Timestamp y)" using Cons.prems(3) by simp
  have M': "(if fgt (Timestamp y) M then Timestamp y else M) = Timestamp y"
    using My by (auto simp: fgt_def fle_def feq_def)
  have st: "scanStep (m, M) y = (m, Timestamp y)"
    by (simp only: scanStep_def fst_conv snd_conv nm M' if_False)
  have s: "sorted_wrt (\<lambda>a b. fle (Timestamp a) (Timestamp b)) ys"
    and r: "\<forall>z\<in>set ys. fle (Timestamp y) (Timestamp z)" using Cons.prems(1) by simp_all
  have a2: "\<forall>z\<in>set ys. fle m (Timestamp z)" using Cons.prems(2) by simp
  have a3: "ys \<noteq> [] \<longrightarrow> fle (Timestamp y) (Timestamp (hd ys))" using r by (cases ys) auto
  from Cons.IH [OF s a2 a3] show ?case by (simp add: st)
qed

lemma scanMinMax_sorted:
  assumes srt: "sorted_wrt (\<lambda>a b. fle (Timestamp a) (Timestamp b)) points"
    and ne: "points \<noteq> []" and nn: "\<not> IsNaN (Timestamp (hd points))"
  shows "scanMinMax points = (Timestamp (hd points), Timestamp (last points))"
proof -
  obtain x xs where p: "points = x # xs" using ne by (cases points) auto
  have nx: "\<not> IsNaN (Timestamp x)" using nn p by simp
  have st: "scanStep (PInf, NInf) x = (Timestamp x, Timestamp x)"
    using nx by (cases "Timestamp x") (auto simp: scanStep_def fgt_def IsNaN_def)
  have s: "sorted_wrt (\<lambda>a b. fle (Timestamp a) (Timestamp b)) xs"
    and r: "\<forall>z\<in>set xs. fle (Timestamp x) (Timestamp z)" using srt p by simp_all
  have a3: "xs \<noteq> [] \<longrightarrow> fle (Timestamp x) (Timestamp (hd xs))" using r by (cases xs) auto
  from scan_sorted_aux [OF s r a3]
  show ?thesis by (simp add: scanMinMax_fold p st)
qed

lemma scan_bounds_aux:
  assumes "\<forall>y\<in>set ys. \<not> IsNaN (Timestamp y)" and "\<not> IsNaN m" and "\<not> IsNaN M"
  shows "\<exists>m' M'. foldl scanStep (m, M) ys = (m', M')
           \<and> (m' = m \<or> m' \<in> Timestamp ` set ys) \<and> fle m' m \<and> (\<forall>y\<in>set ys. fle m' (Timestamp y))
           \<and> (M' = M \<or> M' \<in> Timestamp ` set ys) \<and> fle M M' \<and> (\<forall>y\<in>set ys. fle (Timestamp y) M')"
  using assms
proof (induction ys arbitrary: m M)
  case Nil
  then show ?case by (simp add: fle_refl)
next
  case (Cons y ys)
  define m1 where "m1 = (if flt (Timestamp y) m then Timestamp y else m)"
  define M1 where "M1 = (if fgt (Timestamp y) M then Timestamp y else M)"
  have ny: "\<not> IsNaN (Timestamp y)" using Cons.prems(1) by simp
  have st: "scanStep (m, M) y = (m1, M1)" by (simp add: scanStep_def m1_def M1_def)
  have n1: "\<not> IsNaN m1" "\<not> IsNaN M1" using ny Cons.prems(2,3) by (auto simp: m1_def M1_def)
  have b1: "fle m1 m" "fle m1 (Timestamp y)"
    using ny Cons.prems(2) fle_total [of m "Timestamp y"] fle_refl
    by (auto simp: m1_def fle_def)
  have b2: "fle M M1" "fle (Timestamp y) M1"
    using ny Cons.prems(3) fle_total [of "Timestamp y" M] fle_refl
    by (auto simp: M1_def fle_def fgt_def)
  have rest: "\<forall>z\<in>set ys. \<not> IsNaN (Timestamp z)" using Cons.prems(1) by simp
  from Cons.IH [OF rest n1] obtain m' M' where
    r: "foldl scanStep (m1, M1) ys = (m', M')"
       "m' = m1 \<or> m' \<in> Timestamp ` set ys" "fle m' m1" "\<forall>z\<in>set ys. fle m' (Timestamp z)"
       "M' = M1 \<or> M' \<in> Timestamp ` set ys" "fle M1 M'" "\<forall>z\<in>set ys. fle (Timestamp z) M'"
    by blast
  have 1: "foldl scanStep (m, M) (y # ys) = (m', M')" using r(1) st by simp
  have 2: "m' = m \<or> m' \<in> Timestamp ` set (y # ys)" using r(2) by (auto simp: m1_def)
  have 3: "fle m' m" using r(3) b1(1) fle_trans by blast
  have 4: "\<forall>z\<in>set (y # ys). fle m' (Timestamp z)" using r(3,4) b1(2) fle_trans by auto
  have 5: "M' = M \<or> M' \<in> Timestamp ` set (y # ys)" using r(5) by (auto simp: M1_def)
  have 6: "fle M M'" using r(6) b2(1) fle_trans by blast
  have 7: "\<forall>z\<in>set (y # ys). fle (Timestamp z) M'" using r(6,7) b2(2) fle_trans by auto
  show ?case using 1 2 3 4 5 6 7 by blast
qed

lemma scanMinMax_bounds:
  assumes nn: "\<forall>p\<in>set points. \<not> IsNaN (Timestamp p)" and ne: "points \<noteq> []"
  shows "\<exists>mn mx. scanMinMax points = (mn, mx)
           \<and> mn \<in> Timestamp ` set points \<and> (\<forall>p\<in>set points. fle mn (Timestamp p))
           \<and> mx \<in> Timestamp ` set points \<and> (\<forall>p\<in>set points. fle (Timestamp p) mx)"
proof -
  have "\<not> IsNaN PInf" "\<not> IsNaN NInf" by (simp_all add: IsNaN_def)
  from scan_bounds_aux [OF nn this] obtain mn mx where
    r: "foldl scanStep (PInf, NInf) points = (mn, mx)"
       "mn = PInf \<or> mn \<in> Timestamp ` set points" "\<forall>p\<in>set points. fle mn (Timestamp p)"
       "mx = NInf \<or> mx \<in> Timestamp ` set points" "\<forall>p\<in>set points. fle (Timestamp p) mx"
    by blast
  obtain p where p: "p \<in> set points" using ne by (cases points) auto
  have "mn \<in> Timestamp ` set points"
  proof (cases "mn = PInf")
    case True
    then have "fle PInf (Timestamp p)" using r(3) p by blast
    then have "Timestamp p = PInf" by (cases "Timestamp p") (auto simp: fle_def feq_def)
    then show ?thesis using True p by force
  next
    case False
    then show ?thesis using r(2) by blast
  qed
  moreover have "mx \<in> Timestamp ` set points"
  proof (cases "mx = NInf")
    case True
    then have "fle (Timestamp p) NInf" using r(5) p by blast
    then have "Timestamp p = NInf" by (cases "Timestamp p") (auto simp: fle_def feq_def)
    then show ?thesis using True p by force
  next
    case False
    then show ?thesis using r(4) by blast
  qed
  ultimately show ?thesis using r(1,3,5) by (simp add: scanMinMax_fold)
qed

lemma findFrames_start_set:
  "sf \<noteq> - 1 \<Longrightarrow> fst (findFrames s e points i (sf, ef)) = sf"
  by (induction points arbitrary: i sf ef) auto

lemma findFrames_start:
  "0 \<le> i \<Longrightarrow> fst (findFrames s e points i (- 1, ef)) =
     (if \<exists>p\<in>set points. fge (Timestamp p) s
      then i + int (length (takeWhile (\<lambda>p. \<not> fge (Timestamp p) s) points)) else - 1)"
proof (induction points arbitrary: i ef)
  case Nil
  then show ?case by simp
next
  case (Cons p points)
  show ?case
  proof (cases "fge (Timestamp p) s")
    case True
    then show ?thesis using Cons.prems by (simp add: findFrames_start_set)
  next
    case False
    have "0 \<le> i + 1" using Cons.prems by simp
    from Cons.IH [OF this] show ?thesis using False by simp
  qed
qed

lemma findFrames_end:
  "snd (findFrames s e points i (sf, ef)) =
     (if \<exists>p\<in>set points. fle (Timestamp p) e
      then i + int (length points) - 1
             - int (length (takeWhile (\<lambda>p. \<not> fle (Timestamp p) e) (rev points)))
      else ef)"
proof (induction points arbitrary: i sf ef)
  case Nil
  then show ?case by simp
next
  case (Cons p points)
  show ?case
  proof (cases "\<exists>q\<in>set points. fle (Timestamp q) e")
    case True
    then obtain q where q: "q \<in> set (rev points)" "\<not> \<not> fle (Timestamp q) e" by auto
    have "takeWhile (\<lambda>p. \<not> fle (Timestamp p) e) (rev points @ [p])
        = takeWhile (\<lambda>p. \<not> fle (Timestamp p) e) (rev points)"
      using q by (rule takeWhile_append1)
    then have len: "length (takeWhile (\<lambda>p. \<not> fle (Timestamp p) e) (rev (p # points)))
        = length (takeWhile (\<lambda>p. \<not> fle (Timestamp p) e) (rev points))" by simp
    have ex: "\<exists>q\<in>set (p # points). fle (Timestamp q) e" using True by auto
    have "snd (findFrames s e (p # points) i (sf, ef)) =
        i + 1 + int (length points) - 1
          - int (length (takeWhile (\<lambda>p. \<not> fle (Timestamp p) e) (rev points)))"
      using True Cons.IH [of "i + 1"] by simp
    then show ?thesis unfolding len using ex by simp
  next
    case False
    then have all: "\<And>x. x \<in> set (rev points) \<Longrightarrow> \<not> fle (Timestamp x) e" by simp
    have tw: "takeWhile (\<lambda>p. \<not> fle (Timestamp p) e) (rev points @ [p])
        = rev points @ takeWhile (\<lambda>p. \<not> fle (Timestamp p) e) [p]"
      using all by (rule takeWhile_append2)
    have len: "length (takeWhile (\<lambda>p. \<not> fle (Timestamp p) e) (rev (p # points)))
        = length points + (if fle (Timestamp p) e then 0 else 1)"
      using tw by simp
    have r: "snd (findFrames s e (p # points) i (sf, ef)) =
        (if fle (Timestamp p) e then i else ef)"
      using False Cons.IH [of "i + 1"] by simp
    show ?thesis
    proof (cases "fle (Timestamp p) e")
      case True
      then have ex: "\<exists>q\<in>set (p # points). fle (Timestamp q) e" by simp
      show ?thesis unfolding r len using True ex by simp
    next
      case F: False
      then have nex: "\<not> (\<exists>q\<in>set (p # points). fle (Timestamp q) e)" using False by simp
      show ?thesis unfolding r using F nex by simp
    qed
  qed
qed

lemma dropWhile_upward:
  assumes srt: "sorted_wrt R xs" and up: "\<And>a b. R a b \<Longrightarrow> P a \<Longrightarrow> P b"
  shows "\<forall>x\<in>set (dropWhile (\<lambda>x. \<not> P x) xs). P x"
proof -
  have "sorted_wrt R xs \<longrightarrow> (\<forall>x\<in>set (dropWhile (\<lambda>x. \<not> P x) xs). P x)"
  proof (induct xs)
    case Nil
    show ?case by simp
  next
    case (Cons y ys)
    show ?case
    proof
      assume s: "sorted_wrt R (y # ys)"
      then have rel: "\<forall>z\<in>set ys. R y z" and tl: "sorted_wrt R ys" by simp_all
      show "\<forall>x\<in>set (dropWhile (\<lambda>x. \<not> P x) (y # ys)). P x"
      proof (cases "P y")
        assume py: "P y"
        have all: "\<forall>z\<in>set ys. P z" using rel py up by blast
        have eq: "dropWhile (\<lambda>x. \<not> P x) (y # ys) = y # ys" using py by simp
        have "\<forall>x\<in>set (y # ys). P x" using all py by simp
        then show ?thesis unfolding eq .
      next
        assume npy: "\<not> P y"
        have eq: "dropWhile (\<lambda>x. \<not> P x) (y # ys) = dropWhile (\<lambda>x. \<not> P x) ys"
          using npy by simp
        have "\<forall>x\<in>set (dropWhile (\<lambda>x. \<not> P x) ys). P x" using Cons tl by blast
        then show ?thesis unfolding eq .
      qed
    qed
  qed
  then show ?thesis using srt by blast
qed

lemma dropWhile_downward:
  assumes srt: "sorted_wrt R xs" and down: "\<And>a b. R a b \<Longrightarrow> Q b \<Longrightarrow> Q a"
  shows "\<forall>x\<in>set (dropWhile Q xs). \<not> Q x"
proof -
  have "sorted_wrt R xs \<longrightarrow> (\<forall>x\<in>set (dropWhile Q xs). \<not> Q x)"
  proof (induct xs)
    case Nil
    show ?case by simp
  next
    case (Cons y ys)
    show ?case
    proof
      assume s: "sorted_wrt R (y # ys)"
      then have rel: "\<forall>z\<in>set ys. R y z" and tl: "sorted_wrt R ys" by simp_all
      show "\<forall>x\<in>set (dropWhile Q (y # ys)). \<not> Q x"
      proof (cases "Q y")
        assume qy: "Q y"
        have eq: "dropWhile Q (y # ys) = dropWhile Q ys" using qy by simp
        have "\<forall>x\<in>set (dropWhile Q ys). \<not> Q x" using Cons tl by blast
        then show ?thesis unfolding eq .
      next
        assume nqy: "\<not> Q y"
        have all: "\<forall>z\<in>set ys. \<not> Q z" using rel nqy down by blast
        have eq: "dropWhile Q (y # ys) = y # ys" using nqy by simp
        have "\<forall>x\<in>set (y # ys). \<not> Q x" using all nqy by simp
        then show ?thesis unfolding eq .
      qed
    qed
  qed
  then show ?thesis using srt by blast
qed

lemma sorted_window:
  assumes srt: "sorted_wrt R xs"
    and up: "\<And>a b. R a b \<Longrightarrow> P a \<Longrightarrow> P b"
    and down: "\<And>a b. R a b \<Longrightarrow> Q b \<Longrightarrow> Q a"
    and ex: "\<exists>x\<in>set xs. P x \<and> Q x"
  shows "filter (\<lambda>x. P x \<and> Q x) xs \<noteq> []"
    and "length (takeWhile (\<lambda>x. \<not> P x) xs) + length (filter (\<lambda>x. P x \<and> Q x) xs)
           + length (takeWhile (\<lambda>x. \<not> Q x) (rev xs)) = length xs"
    and "take (length (filter (\<lambda>x. P x \<and> Q x) xs)) (drop (length (takeWhile (\<lambda>x. \<not> P x) xs)) xs)
           = filter (\<lambda>x. P x \<and> Q x) xs"
proof -
  define A where "A = takeWhile (\<lambda>x. \<not> P x) xs"
  define ys where "ys = dropWhile (\<lambda>x. \<not> P x) xs"
  define M where "M = takeWhile Q ys"
  define C where "C = dropWhile Q ys"
  have "A @ ys = xs" unfolding A_def ys_def by (rule takeWhile_dropWhile_id)
  moreover have "M @ C = ys" unfolding M_def C_def by (rule takeWhile_dropWhile_id)
  ultimately have xs: "xs = A @ M @ C" by simp
  have A: "\<forall>x\<in>set A. \<not> P x"
  proof
    fix x assume "x \<in> set A"
    then have "x \<in> set xs \<and> \<not> P x" unfolding A_def by (rule set_takeWhileD)
    then show "\<not> P x" by blast
  qed
  have ys: "\<forall>x\<in>set ys. P x" unfolding ys_def using srt up by (rule dropWhile_upward)
  have sys: "sorted_wrt R ys" unfolding ys_def using srt by (rule sorted_wrt_dropWhile)
  have M: "\<forall>x\<in>set M. P x \<and> Q x"
  proof
    fix x assume x: "x \<in> set M"
    then have "x \<in> set ys \<and> Q x" unfolding M_def by (rule set_takeWhileD)
    then show "P x \<and> Q x" using ys by blast
  qed
  have Cq: "\<forall>x\<in>set C. \<not> Q x" unfolding C_def using sys down by (rule dropWhile_downward)
  have C: "\<forall>x\<in>set C. \<not> (P x \<and> Q x)" using Cq by blast
  have A': "\<forall>x\<in>set A. \<not> (P x \<and> Q x)" using A by blast
  have fA: "filter (\<lambda>x. P x \<and> Q x) A = []" using A' by (rule iffD2 [OF filter_empty_conv])
  have fM: "filter (\<lambda>x. P x \<and> Q x) M = M" using M by (rule iffD2 [OF filter_id_conv])
  have fC: "filter (\<lambda>x. P x \<and> Q x) C = []" using C by (rule iffD2 [OF filter_empty_conv])
  have "filter (\<lambda>x. P x \<and> Q x) (A @ M @ C) = M"
    unfolding filter_append fA fM fC by simp
  then have f: "filter (\<lambda>x. P x \<and> Q x) xs = M" unfolding xs .
  obtain x where x: "x \<in> set xs" "P x" "Q x" using ex by blast
  have "x \<notin> set A" using A x(2) by blast
  moreover have "x \<notin> set C" using Cq x(3) by blast
  moreover have "set xs = set A \<union> set M \<union> set C" unfolding xs by auto
  ultimately have "x \<in> set M" using x(1) by blast
  then have Mne: "M \<noteq> []" by auto
  show "filter (\<lambda>x. P x \<and> Q x) xs \<noteq> []" unfolding f by (rule Mne)
  have lm: "last M \<in> set M" using Mne by (rule last_in_set)
  then have ql: "Q (last M)" using M by blast
  have "rev (butlast M @ [last M]) = last M # rev (butlast M)" by simp
  then have rm: "rev M = last M # rev (butlast M)"
    by (simp only: append_butlast_last_id [OF Mne])
  have "takeWhile (\<lambda>x. \<not> Q x) ((last M # rev (butlast M)) @ rev A) = []"
    using ql by simp
  then have tw0: "takeWhile (\<lambda>x. \<not> Q x) (rev M @ rev A) = []" unfolding rm .
  have Cq': "\<And>x. x \<in> set (rev C) \<Longrightarrow> \<not> Q x" using Cq by simp
  have "takeWhile (\<lambda>x. \<not> Q x) (rev C @ (rev M @ rev A)) = rev C @ takeWhile (\<lambda>x. \<not> Q x) (rev M @ rev A)"
    using Cq' by (rule takeWhile_append2)
  then have "takeWhile (\<lambda>x. \<not> Q x) (rev C @ (rev M @ rev A)) = rev C" unfolding tw0 by simp
  moreover have "rev (A @ M @ C) = rev C @ (rev M @ rev A)" by simp
  ultimately have "takeWhile (\<lambda>x. \<not> Q x) (rev (A @ M @ C)) = rev C" by (simp only:)
  then have tw: "takeWhile (\<lambda>x. \<not> Q x) (rev xs) = rev C" unfolding xs .
  have twA: "takeWhile (\<lambda>x. \<not> P x) xs = A" unfolding A_def ..
  have "length (A @ M @ C) = length A + length M + length C" by simp
  then have lx: "length xs = length A + length M + length C" unfolding xs .
  show "length (takeWhile (\<lambda>x. \<not> P x) xs) + length (filter (\<lambda>x. P x \<and> Q x) xs)
           + length (takeWhile (\<lambda>x. \<not> Q x) (rev xs)) = length xs"
    unfolding tw twA f lx by simp
  have "take (length M) (drop (length A) (A @ M @ C)) = M" by simp
  then have "take (length M) (drop (length A) xs) = M" unfolding xs .
  then show "take (length (filter (\<lambda>x. P x \<and> Q x) xs)) (drop (length (takeWhile (\<lambda>x. \<not> P x) xs)) xs)
           = filter (\<lambda>x. P x \<and> Q x) xs"
    unfolding twA f .
qed

lemma ClipDataset_unfold:
  assumes "Points ds \<noteq> []" and "scanMinMax (Points ds) = (mn, mx)"
  shows "ClipDataset env (Some ds) cfg =
           (case checkBound StartBound (StartTime cfg) mn mn mx of
              Inl e \<Rightarrow> Inl (e, baseInfo env ds mn mx)
            | Inr startTime \<Rightarrow>
                (case checkBound EndBound (EndTime cfg) mx mn mx of
                   Inl e \<Rightarrow> Inl (e, baseInfo env ds mn mx)
                 | Inr endTime \<Rightarrow> clipFrames env ds (baseInfo env ds mn mx) startTime endTime))"
  unfolding baseInfo_def using assms by (simp add: ClipDataset_def zeroClipInfo_def Let_def)

lemma clip_start_out:
  assumes "Points ds \<noteq> []" and "scanMinMax (Points ds) = (mn, mx)"
    and "StartTime cfg = Some s" and "flt s mn \<or> fgt s mx"
  shows "ClipDataset env (Some ds) cfg = Inl (OutOfBounds StartBound s mn mx, baseInfo env ds mn mx)"
  using assms(3,4) unfolding ClipDataset_unfold [OF assms(1,2)] by (auto simp: checkBound_def)

lemma clip_end_out:
  assumes "Points ds \<noteq> []" and "scanMinMax (Points ds) = (mn, mx)"
    and "EndTime cfg = Some e" and "flt e mn \<or> fgt e mx"
    and "\<forall>s. StartTime cfg = Some s \<longrightarrow> \<not> (flt s mn \<or> fgt s mx)"
  shows "ClipDataset env (Some ds) cfg = Inl (OutOfBounds EndBound e mn mx, baseInfo env ds mn mx)"
  using assms(3,4,5) unfolding ClipDataset_unfold [OF assms(1,2)]
  by (cases "StartTime cfg") (auto simp: checkBound_def)

section \<open>Package clipper: the claims\<close>

text \<open>
  Claim C5. For a dataset with points, let \<open>mn\<close> and \<open>mx\<close> be the minimum and the maximum
  that \<^verbatim>\<open>ClipDataset\<close> finds by its scan. A requested start below \<open>mn\<close> or above \<open>mx\<close>
  makes \<^verbatim>\<open>ClipDataset\<close> fail with the out-of-bounds error that carries this start and
  the range \<open>mn\<close>, \<open>mx\<close>; so does a requested end outside the range when the start is
  not at fault. No dataset is returned, only the \<^verbatim>\<open>ClipInfo\<close> filled so far. When no
  timestamp is NaN, \<open>mn\<close> and \<open>mx\<close> are the least and the greatest timestamp of the
  dataset.
\<close>

theorem clip_out_of_bounds:
  assumes "Points ds \<noteq> []" and "scanMinMax (Points ds) = (mn, mx)"
  shows "(\<forall>s. StartTime cfg = Some s \<and> (flt s mn \<or> fgt s mx) \<longrightarrow>
            ClipDataset env (Some ds) cfg =
              Inl (OutOfBounds StartBound s mn mx, baseInfo env ds mn mx))
       \<and> (\<forall>e. EndTime cfg = Some e \<and> (flt e mn \<or> fgt e mx)
              \<and> (\<forall>s. StartTime cfg = Some s \<longrightarrow> \<not> (flt s mn \<or> fgt s mx)) \<longrightarrow>
            ClipDataset env (Some ds) cfg =
              Inl (OutOfBounds EndBound e mn mx, baseInfo env ds mn mx))
       \<and> ((\<forall>p\<in>set (Points ds). \<not> IsNaN (Timestamp p)) \<longrightarrow>
            mn \<in> Timestamp ` set (Points ds) \<and> (\<forall>p\<in>set (Points ds). fle mn (Timestamp p))
          \<and> mx \<in> Timestamp ` set (Points ds) \<and> (\<forall>p\<in>set (Points ds). fle (Timestamp p) mx))"
proof (intro conjI allI impI)
  fix s assume "StartTime cfg = Some s \<and> (flt s mn \<or> fgt s mx)"
  then show "ClipDataset env (Some ds) cfg =
              Inl (OutOfBounds StartBound s mn mx, baseInfo env ds mn mx)"
    using clip_start_out [OF assms] by blast
next
  fix e assume "EndTime cfg = Some e \<and> (flt e mn \<or> fgt e mx)
              \<and> (\<forall>s. StartTime cfg = Some s \<longrightarrow> \<not> (flt s mn \<or> fgt s mx))"
  then show "ClipDataset env (Some ds) cfg =
              Inl (OutOfBounds EndBound e mn mx, baseInfo env ds mn mx)"
    using clip_end_out [OF assms] by blast
next
  assume nn: "\<forall>p\<in>set (Points ds). \<not> IsNaN (Timestamp p)"
  from scanMinMax_bounds [OF nn assms(1)] assms(2)
  have b: "mn \<in> Timestamp ` set (Points ds) \<and> (\<forall>p\<in>set (Points ds). fle mn (Timestamp p))
          \<and> mx \<in> Timestamp ` set (Points ds) \<and> (\<forall>p\<in>set (Points ds). fle (Timestamp p) mx)"
    by auto
  show "mn \<in> Timestamp ` set (Points ds)" using b by blast
  show "\<forall>p\<in>set (Points ds). fle mn (Timestamp p)" using b by blast
  show "mx \<in> Timestamp ` set (Points ds)" using b by blast
  show "\<forall>p\<in>set (Points ds). fle (Timestamp p) mx" using b by blast
qed

lemma scan_fourPoints: "scanMinMax fourPoints = (Fin 0, Fin 30)"
  by (simp add: scanMinMax_def fourPoints_def mkPoint_def fgt_def)

theorem clip_out_of_bounds_witness:
  "Points (mkDataset fourPoints [''x'']) \<noteq> []
   \<and> scanMinMax (Points (mkDataset fourPoints [''x''])) = (Fin 0, Fin 30)
   \<and> fgt (Fin 100) (Fin 30)
   \<and> ClipDataset exact (Some (mkDataset fourPoints [''x''])) (mkClipConfig None (Some (Fin 100)))
       = Inl (OutOfBounds EndBound (Fin 100) (Fin 0) (Fin 30),
              baseInfo exact (mkDataset fourPoints [''x'']) (Fin 0) (Fin 30))
   \<and> ClipDataset exact (Some (mkDataset fourPoints [''x''])) (mkClipConfig (Some (Fin (- 1))) (Some (Fin 100)))
       = Inl (OutOfBounds StartBound (Fin (- 1)) (Fin 0) (Fin 30),
              baseInfo exact (mkDataset fourPoints [''x'']) (Fin 0) (Fin 30))"
proof -
  have ne: "Points (mkDataset fourPoints [''x'']) \<noteq> []" by (simp add: mkDataset_def fourPoints_def)
  have sc: "scanMinMax (Points (mkDataset fourPoints [''x''])) = (Fin 0, Fin 30)"
    by (simp add: mkDataset_def scan_fourPoints)
  show ?thesis
    using clip_out_of_bounds [OF ne sc, of "mkClipConfig None (Some (Fin 100))" exact]
          clip_out_of_bounds [OF ne sc, of "mkClipConfig (Some (Fin (- 1))) (Some (Fin 100))" exact]
          ne sc
    by (simp add: mkClipConfig_def fgt_def)
qed

lemma findFrames_result:
  "findFrames s e points 0 (- 1, - 1) =
     (if \<exists>p\<in>set points. fge (Timestamp p) s
      then int (length (takeWhile (\<lambda>p. \<not> fge (Timestamp p) s) points)) else - 1,
      if \<exists>p\<in>set points. fle (Timestamp p) e
      then int (length points) - 1
             - int (length (takeWhile (\<lambda>p. \<not> fle (Timestamp p) e) (rev points)))
      else - 1)"
proof -
  have "findFrames s e points 0 (- 1, - 1) =
          (fst (findFrames s e points 0 (- 1, - 1)), snd (findFrames s e points 0 (- 1, - 1)))"
    by simp
  also have "\<dots> = (if \<exists>p\<in>set points. fge (Timestamp p) s
      then int (length (takeWhile (\<lambda>p. \<not> fge (Timestamp p) s) points)) else - 1,
      if \<exists>p\<in>set points. fle (Timestamp p) e
      then int (length points) - 1
             - int (length (takeWhile (\<lambda>p. \<not> fle (Timestamp p) e) (rev points)))
      else - 1)"
    unfolding findFrames_start [of 0 s e points "- 1", simplified] findFrames_end [of s e points 0 "- 1" "- 1"]
    by simp
  finally show ?thesis .
qed

lemma clipFrames_no_frame:
  assumes "\<not> (\<exists>p\<in>set (Points ds). fge (Timestamp p) s) \<or> \<not> (\<exists>p\<in>set (Points ds). fle (Timestamp p) e)"
  shows "\<exists>err. clipFrames env ds info s e = Inl (err, info)"
  using assms by (auto simp: clipFrames_def findFrames_result)

lemma same_timestamp_never_clipped:
  assumes ne: "Points ds \<noteq> []" and same: "\<forall>p\<in>set (Points ds). Timestamp p = t"
  shows "\<exists>err info. ClipDataset env (Some ds) cfg = Inl (err, info)"
proof -
  define mn where "mn = (if IsNaN t then PInf else t)"
  define mx where "mx = (if IsNaN t then NInf else t)"
  have sc: "scanMinMax (Points ds) = (mn, mx)"
    using scanMinMax_same [OF same ne] by (simp add: mn_def mx_def)
  note u = ClipDataset_unfold [OF ne sc, of env cfg]
  obtain p where p: "p \<in> set (Points ds)" using ne by (cases "Points ds") auto
  show ?thesis
  proof (cases "checkBound StartBound (StartTime cfg) mn mn mx")
    case (Inl e)
    then show ?thesis using u by simp
  next
    case s: (Inr s)
    show ?thesis
    proof (cases "checkBound EndBound (EndTime cfg) mx mn mx")
      case (Inl e)
      then show ?thesis using u s by simp
    next
      case e: (Inr e)
      have r: "ClipDataset env (Some ds) cfg = clipFrames env ds (baseInfo env ds mn mx) s e"
        using u s e by simp
      have sb: "s = mn \<or> (\<not> flt s mn \<and> \<not> flt mx s)"
        using s by (auto simp: checkBound_def fgt_def split: option.splits if_splits)
      have eb: "e = mx \<or> (\<not> flt e mn \<and> \<not> flt mx e)"
        using e by (auto simp: checkBound_def fgt_def split: option.splits if_splits)
      show ?thesis
      proof (cases "fle s t \<and> fle t e")
        case True
        then have nt: "\<not> IsNaN t" using fle_not_NaN by blast
        then have m: "mn = t" "mx = t" by (simp_all add: mn_def mx_def)
        have "s = t" using sb True m by (cases s; cases t) (auto simp: fle_def feq_def IsNaN_def)
        moreover have "e = t" using eb True m by (cases e; cases t) (auto simp: fle_def feq_def IsNaN_def)
        ultimately have "fle e s" using nt by (simp add: fle_refl)
        then show ?thesis unfolding r by (simp add: clipFrames_def)
      next
        case False
        then have "\<not> (\<exists>p\<in>set (Points ds). fge (Timestamp p) s)
                 \<or> \<not> (\<exists>p\<in>set (Points ds). fle (Timestamp p) e)"
          using same by (auto simp: fge_def)
        from clipFrames_no_frame [OF this] show ?thesis unfolding r by blast
      qed
    qed
  qed
qed

lemma same_timestamp_no_bounds:
  assumes ne: "Points ds \<noteq> []" and same: "\<forall>p\<in>set (Points ds). Timestamp p = t"
  shows "ClipDataset env (Some ds) \<lparr> StartTime = None, EndTime = None \<rparr> =
           Inl (InvalidRange (if IsNaN t then NInf else t) (if IsNaN t then PInf else t),
                baseInfo env ds (if IsNaN t then PInf else t) (if IsNaN t then NInf else t))"
proof -
  define mn where "mn = (if IsNaN t then PInf else t)"
  define mx where "mx = (if IsNaN t then NInf else t)"
  have sc: "scanMinMax (Points ds) = (mn, mx)"
    using scanMinMax_same [OF same ne] by (simp add: mn_def mx_def)
  have "fle mx mn" by (cases t) (auto simp: mn_def mx_def fle_def feq_def IsNaN_def)
  then have "ClipDataset env (Some ds) \<lparr> StartTime = None, EndTime = None \<rparr> =
           Inl (InvalidRange mx mn, baseInfo env ds mn mx)"
    unfolding ClipDataset_unfold [OF ne sc] by (simp add: checkBound_def clipFrames_def)
  then show ?thesis by (simp add: mn_def mx_def)
qed

text \<open>
  Claim C10. When every point of a non-empty dataset has the same timestamp \<open>t\<close>,
  \<^verbatim>\<open>ClipDataset\<close> without requested bounds fails with the invalid-range error: the
  effective bounds are the observed maximum and minimum, both \<open>t\<close> (for a NaN timestamp
  the scan leaves \<open>-Inf\<close> and \<open>+Inf\<close>), and the end is not after the start. Whatever
  bounds are requested, \<^verbatim>\<open>ClipDataset\<close> returns an error and no dataset.
\<close>

theorem clip_single_timestamp:
  assumes "Points ds \<noteq> []" and "\<forall>p\<in>set (Points ds). Timestamp p = t"
  shows "ClipDataset env (Some ds) \<lparr> StartTime = None, EndTime = None \<rparr> =
           Inl (InvalidRange (if IsNaN t then NInf else t) (if IsNaN t then PInf else t),
                baseInfo env ds (if IsNaN t then PInf else t) (if IsNaN t then NInf else t))
       \<and> (\<forall>cfg. \<exists>err info. ClipDataset env (Some ds) cfg = Inl (err, info))"
  using same_timestamp_no_bounds [OF assms] same_timestamp_never_clipped [OF assms] by blast

theorem clip_single_timestamp_witness:
  "Points (mkDataset sameTimePoints [''x'']) \<noteq> []
   \<and> map Timestamp (Points (mkDataset sameTimePoints [''x''])) = [Fin 7, Fin 7, Fin 7]
   \<and> ClipDataset exact (Some (mkDataset sameTimePoints [''x''])) \<lparr> StartTime = None, EndTime = None \<rparr>
        = Inl (InvalidRange (Fin 7) (Fin 7), baseInfo exact (mkDataset sameTimePoints [''x'']) (Fin 7) (Fin 7))
   \<and> (\<exists>err info. ClipDataset exact (Some (mkDataset sameTimePoints [''x'']))
                      (mkClipConfig (Some (Fin 7)) (Some (Fin 7))) = Inl (err, info))"
proof -
  have ne: "Points (mkDataset sameTimePoints [''x'']) \<noteq> []"
    by (simp add: mkDataset_def sameTimePoints_def)
  have same: "\<forall>p\<in>set (Points (mkDataset sameTimePoints [''x''])). Timestamp p = Fin 7"
    by (simp add: mkDataset_def sameTimePoints_def mkPoint_def)
  show ?thesis
    using clip_single_timestamp [OF ne same, of exact] ne
    by (simp add: IsNaN_def mkDataset_def sameTimePoints_def mkPoint_def)
qed

lemma sorted_no_window:
  assumes srt: "sorted_wrt R xs"
    and up: "\<And>a b. R a b \<Longrightarrow> P a \<Longrightarrow> P b"
    and no: "\<not> (\<exists>x\<in>set xs. P x \<and> Q x)"
  shows "length xs \<le> length (takeWhile (\<lambda>x. \<not> P x) xs) + length (takeWhile (\<lambda>x. \<not> Q x) (rev xs))"
proof -
  define A where "A = takeWhile (\<lambda>x. \<not> P x) xs"
  define ys where "ys = dropWhile (\<lambda>x. \<not> P x) xs"
  have xs: "xs = A @ ys" unfolding A_def ys_def by simp
  have ys: "\<forall>x\<in>set ys. P x" unfolding ys_def using srt up by (rule dropWhile_upward)
  have sub: "set ys \<subseteq> set xs" unfolding ys_def by (rule set_dropWhileD [THEN subsetI]) assumption
  have nq: "\<And>x. x \<in> set (rev ys) \<Longrightarrow> \<not> Q x" using ys no sub by auto
  have "takeWhile (\<lambda>x. \<not> Q x) (rev ys @ rev A) = rev ys @ takeWhile (\<lambda>x. \<not> Q x) (rev A)"
    using nq by (rule takeWhile_append2)
  moreover have "rev (A @ ys) = rev ys @ rev A" by simp
  ultimately have "takeWhile (\<lambda>x. \<not> Q x) (rev (A @ ys)) = rev ys @ takeWhile (\<lambda>x. \<not> Q x) (rev A)"
    by (simp only:)
  then have "length ys \<le> length (takeWhile (\<lambda>x. \<not> Q x) (rev (A @ ys)))" by simp
  then have l: "length ys \<le> length (takeWhile (\<lambda>x. \<not> Q x) (rev xs))" unfolding xs [symmetric] .
  have "length (A @ ys) = length A + length ys" by simp
  then have "length xs = length A + length ys" unfolding xs [symmetric] .
  then show ?thesis using l unfolding A_def by linarith
qed

lemma slice_ok:
  "0 \<le> lo \<Longrightarrow> lo \<le> hi \<Longrightarrow> hi \<le> int (length xs) \<Longrightarrow>
   slice xs lo hi = Inr (take (nat (hi - lo)) (drop (nat lo) xs))"
  by (simp add: slice_def)

lemma index_hd_last:
  assumes "xs \<noteq> []"
  shows "index xs 0 = Inr (hd xs)" and "index xs (int (length xs) - 1) = Inr (last xs)"
proof -
  show "index xs 0 = Inr (hd xs)" using assms by (cases xs) (auto simp: index_def)
  have "nat (int (length xs) - 1) = length xs - 1" by simp
  then show "index xs (int (length xs) - 1) = Inr (last xs)"
    using assms by (simp add: index_def last_conv_nth)
qed

lemma clipFrames_window:
  assumes ord: "timeOrdered (Points ds)"
    and lt: "flt s e"
    and ex: "\<exists>p\<in>set (Points ds). fle s (Timestamp p) \<and> fle (Timestamp p) e"
  shows "clipFrames env ds info s e =
           Inr (\<lparr> Points = filter (\<lambda>p. fle s (Timestamp p) \<and> fle (Timestamp p) e) (Points ds),
                  Columns = Columns ds,
                  Metadata =
                    [ ''original_points'' \<mapsto> MInt (OriginalPoints_clip info),
                      ''clipped_points'' \<mapsto>
                         MInt (int (length (filter (\<lambda>p. fle s (Timestamp p) \<and> fle (Timestamp p) e) (Points ds)))),
                      ''original_duration'' \<mapsto> MFloat (TotalDuration info),
                      ''clipped_duration'' \<mapsto>
                         MFloat (fsub env
                           (Timestamp (last (filter (\<lambda>p. fle s (Timestamp p) \<and> fle (Timestamp p) e) (Points ds))))
                           (Timestamp (hd (filter (\<lambda>p. fle s (Timestamp p) \<and> fle (Timestamp p) e) (Points ds))))),
                      ''start_time'' \<mapsto>
                         MFloat (Timestamp (hd (filter (\<lambda>p. fle s (Timestamp p) \<and> fle (Timestamp p) e) (Points ds)))),
                      ''end_time'' \<mapsto>
                         MFloat (Timestamp (last (filter (\<lambda>p. fle s (Timestamp p) \<and> fle (Timestamp p) e) (Points ds)))),
                      ''requested_start'' \<mapsto> MFloat s,
                      ''requested_end'' \<mapsto> MFloat e ] \<rparr>,
                info\<lparr>ClippedPoints :=
                        int (length (filter (\<lambda>p. fle s (Timestamp p) \<and> fle (Timestamp p) e) (Points ds))),
                      StartFrame := int (length (takeWhile (\<lambda>p. \<not> fle s (Timestamp p)) (Points ds))),
                      EndFrame := int (length (Points ds)) - 1
                         - int (length (takeWhile (\<lambda>p. \<not> fle (Timestamp p) e) (rev (Points ds)))),
                      ActualStartTime :=
                        Timestamp (hd (filter (\<lambda>p. fle s (Timestamp p) \<and> fle (Timestamp p) e) (Points ds))),
                      ActualEndTime :=
                        Timestamp (last (filter (\<lambda>p. fle s (Timestamp p) \<and> fle (Timestamp p) e) (Points ds)))\<rparr>)
         \<and> filter (\<lambda>p. fle s (Timestamp p) \<and> fle (Timestamp p) e) (Points ds) \<noteq> []
         \<and> filter (\<lambda>p. fle s (Timestamp p) \<and> fle (Timestamp p) e) (Points ds) =
             take (length (filter (\<lambda>p. fle s (Timestamp p) \<and> fle (Timestamp p) e) (Points ds)))
               (drop (length (takeWhile (\<lambda>p. \<not> fle s (Timestamp p)) (Points ds))) (Points ds))
         \<and> int (length (Points ds)) - 1
              - int (length (takeWhile (\<lambda>p. \<not> fle (Timestamp p) e) (rev (Points ds))))
            = int (length (takeWhile (\<lambda>p. \<not> fle s (Timestamp p)) (Points ds)))
              + int (length (filter (\<lambda>p. fle s (Timestamp p) \<and> fle (Timestamp p) e) (Points ds))) - 1"
proof -
  define pts where "pts = Points ds"
  define F where "F = filter (\<lambda>p. fle s (Timestamp p) \<and> fle (Timestamp p) e) pts"
  define a where "a = length (takeWhile (\<lambda>p. \<not> fle s (Timestamp p)) pts)"
  define c where "c = length (takeWhile (\<lambda>p. \<not> fle (Timestamp p) e) (rev pts))"
  have srt: "sorted_wrt (\<lambda>a b. fle (Timestamp a) (Timestamp b)) pts"
    using ord by (simp add: timeOrdered_def pts_def)
  have up: "\<And>a b. fle (Timestamp a) (Timestamp b) \<Longrightarrow> fle s (Timestamp a) \<Longrightarrow> fle s (Timestamp b)"
    using fle_trans by blast
  have down: "\<And>a b. fle (Timestamp a) (Timestamp b) \<Longrightarrow> fle (Timestamp b) e \<Longrightarrow> fle (Timestamp a) e"
    using fle_trans by blast
  have ex': "\<exists>p\<in>set pts. fle s (Timestamp p) \<and> fle (Timestamp p) e" using ex by (simp add: pts_def)
  have w1: "F \<noteq> []" unfolding F_def using srt up down ex' by (rule sorted_window(1))
  have w2: "a + length F + c = length pts"
    unfolding F_def a_def c_def using srt up down ex' by (rule sorted_window(2))
  have w3: "take (length F) (drop a pts) = F"
    unfolding F_def a_def using srt up down ex' by (rule sorted_window(3))
  have exs: "\<exists>p\<in>set pts. fge (Timestamp p) s" using ex' by (auto simp: fge_def)
  have exe: "\<exists>p\<in>set pts. fle (Timestamp p) e" using ex' by auto
  have ff: "findFrames s e pts 0 (- 1, - 1) = (int a, int (length pts) - 1 - int c)"
    unfolding findFrames_result using exs exe by (simp add: a_def c_def fge_def)
  have lf: "0 < length F" using w1 by simp
  have ef: "int (length pts) - 1 - int c = int a + int (length F) - 1" using w2 by linarith
  have nle: "\<not> fle e s" using lt flt_not_fle by blast
  have pos: "int a + int (length F) \<noteq> 0" using lf by linarith
  have sl: "slice pts (int a) (int a + int (length F) - 1 + 1) = Inr F"
  proof -
    have "slice pts (int a) (int a + int (length F)) =
            Inr (take (nat (int a + int (length F) - int a)) (drop (nat (int a)) pts))"
      using w2 by (intro slice_ok) auto
    then show ?thesis using w3 by simp
  qed
  have "clipFrames env ds info s e =
          Inr (\<lparr> Points = F, Columns = Columns ds,
                 Metadata =
                    [ ''original_points'' \<mapsto> MInt (OriginalPoints_clip info),
                      ''clipped_points'' \<mapsto> MInt (int (length F)),
                      ''original_duration'' \<mapsto> MFloat (TotalDuration info),
                      ''clipped_duration'' \<mapsto>
                         MFloat (fsub env (Timestamp (last F)) (Timestamp (hd F))),
                      ''start_time'' \<mapsto> MFloat (Timestamp (hd F)),
                      ''end_time'' \<mapsto> MFloat (Timestamp (last F)),
                      ''requested_start'' \<mapsto> MFloat s,
                      ''requested_end'' \<mapsto> MFloat e ] \<rparr>,
               info\<lparr>ClippedPoints := int (length F), StartFrame := int a,
                     EndFrame := int (length pts) - 1 - int c,
                     ActualStartTime := Timestamp (hd F),
                     ActualEndTime := Timestamp (last F)\<rparr>)"
    using nle lf sl index_hd_last [OF w1] pos
    by (simp add: clipFrames_def pts_def [symmetric] ff ef Let_def)
  then show ?thesis using w1 w3 ef unfolding F_def a_def c_def pts_def by simp
qed

lemma clipFrames_no_window:
  assumes ord: "timeOrdered (Points ds)"
    and lt: "flt s e"
    and no: "\<not> (\<exists>p\<in>set (Points ds). fle s (Timestamp p) \<and> fle (Timestamp p) e)"
  shows "clipFrames env ds info s e = Inl (NoDataInRange, info)"
proof -
  define pts where "pts = Points ds"
  define a where "a = length (takeWhile (\<lambda>p. \<not> fle s (Timestamp p)) pts)"
  define c where "c = length (takeWhile (\<lambda>p. \<not> fle (Timestamp p) e) (rev pts))"
  have srt: "sorted_wrt (\<lambda>a b. fle (Timestamp a) (Timestamp b)) pts"
    using ord by (simp add: timeOrdered_def pts_def)
  have up: "\<And>a b. fle (Timestamp a) (Timestamp b) \<Longrightarrow> fle s (Timestamp a) \<Longrightarrow> fle s (Timestamp b)"
    using fle_trans by blast
  have no': "\<not> (\<exists>p\<in>set pts. fle s (Timestamp p) \<and> fle (Timestamp p) e)" using no by (simp add: pts_def)
  have w: "length pts \<le> a + c" unfolding a_def c_def using srt up no' by (rule sorted_no_window)
  have nle: "\<not> fle e s" using lt flt_not_fle by blast
  obtain sf ef where ff: "findFrames s e pts 0 (- 1, - 1) = (sf, ef)" by (cases "findFrames s e pts 0 (- 1, - 1)")
  have "sf = - 1 \<or> ef = - 1 \<or> sf > ef"
  proof (cases "(\<exists>p\<in>set pts. fge (Timestamp p) s) \<and> (\<exists>p\<in>set pts. fle (Timestamp p) e)")
    case True
    then have "sf = int a" "ef = int (length pts) - 1 - int c"
      using ff unfolding findFrames_result by (auto simp: a_def c_def fge_def)
    then show ?thesis using w by linarith
  next
    case False
    then show ?thesis using ff unfolding findFrames_result by auto
  qed
  then show ?thesis using nle ff by (auto simp: clipFrames_def pts_def [symmetric])
qed

lemma ClipDataset_in_range:
  assumes ne: "Points ds \<noteq> []" and ord: "timeOrdered (Points ds)"
    and r1: "fle (Timestamp (hd (Points ds))) (effectiveStart cfg (Points ds))"
    and r2: "fle (effectiveStart cfg (Points ds)) (Timestamp (last (Points ds)))"
    and r3: "fle (Timestamp (hd (Points ds))) (effectiveEnd cfg (Points ds))"
    and r4: "fle (effectiveEnd cfg (Points ds)) (Timestamp (last (Points ds)))"
  shows "ClipDataset env (Some ds) cfg =
           clipFrames env ds
             (baseInfo env ds (Timestamp (hd (Points ds))) (Timestamp (last (Points ds))))
             (effectiveStart cfg (Points ds)) (effectiveEnd cfg (Points ds))"
proof -
  have nn: "\<not> IsNaN (Timestamp (hd (Points ds)))" using r1 fle_not_NaN by blast
  have sc: "scanMinMax (Points ds) = (Timestamp (hd (Points ds)), Timestamp (last (Points ds)))"
    using ord ne nn unfolding timeOrdered_def by (rule scanMinMax_sorted)
  have c1: "checkBound StartBound (StartTime cfg) (Timestamp (hd (Points ds)))
              (Timestamp (hd (Points ds))) (Timestamp (last (Points ds)))
            = Inr (effectiveStart cfg (Points ds))"
    using r1 r2 flt_not_fle
    by (auto simp: checkBound_def effectiveStart_def fgt_def split: option.splits)
  have c2: "checkBound EndBound (EndTime cfg) (Timestamp (last (Points ds)))
              (Timestamp (hd (Points ds))) (Timestamp (last (Points ds)))
            = Inr (effectiveEnd cfg (Points ds))"
    using r3 r4 flt_not_fle
    by (auto simp: checkBound_def effectiveEnd_def fgt_def split: option.splits)
  show ?thesis unfolding ClipDataset_unfold [OF ne sc] c1 c2 by simp
qed

text \<open>
  Claim C4, as the code has it. For a non-empty dataset in temporal order and effective
  bounds \<open>s < e\<close> within the observed range: if some point has its timestamp in
  \<open>[s, e]\<close>, \<^verbatim>\<open>ClipDataset\<close> returns exactly the points with a timestamp in \<open>[s, e]\<close>,
  which are the contiguous slice from the first point at or after \<open>s\<close> to the last point
  at or before \<open>e\<close>, and the actual start and end times are the timestamps of the first
  and the last of them; if no point has its timestamp in \<open>[s, e]\<close>, it fails with the
  no-data error.
\<close>

theorem clip_window:
  assumes "Points ds \<noteq> []" and "timeOrdered (Points ds)"
    and "s = effectiveStart cfg (Points ds)" and "e = effectiveEnd cfg (Points ds)"
    and "fle (Timestamp (hd (Points ds))) s" and "fle s (Timestamp (last (Points ds)))"
    and "fle (Timestamp (hd (Points ds))) e" and "fle e (Timestamp (last (Points ds)))"
    and "flt s e"
  shows "((\<exists>p\<in>set (Points ds). fle s (Timestamp p) \<and> fle (Timestamp p) e) \<longrightarrow>
           (\<exists>out info. ClipDataset env (Some ds) cfg = Inr (out, info)
              \<and> Points out = filter (\<lambda>p. fle s (Timestamp p) \<and> fle (Timestamp p) e) (Points ds)
              \<and> Points out \<noteq> []
              \<and> Points out = take (length (Points out)) (drop (nat (StartFrame info)) (Points ds))
              \<and> Columns out = Columns ds
              \<and> StartFrame info = int (length (takeWhile (\<lambda>p. \<not> fle s (Timestamp p)) (Points ds)))
              \<and> EndFrame info = int (length (Points ds)) - 1
                    - int (length (takeWhile (\<lambda>p. \<not> fle (Timestamp p) e) (rev (Points ds))))
              \<and> EndFrame info = StartFrame info + int (length (Points out)) - 1
              \<and> ClippedPoints info = int (length (Points out))
              \<and> ActualStartTime info = Timestamp (hd (Points out))
              \<and> ActualEndTime info = Timestamp (last (Points out))
              \<and> MinTimestamp info = Timestamp (hd (Points ds))
              \<and> MaxTimestamp info = Timestamp (last (Points ds))
              \<and> OriginalPoints_clip info = int (length (Points ds))))
       \<and> (\<not> (\<exists>p\<in>set (Points ds). fle s (Timestamp p) \<and> fle (Timestamp p) e) \<longrightarrow>
           ClipDataset env (Some ds) cfg =
             Inl (NoDataInRange,
                  baseInfo env ds (Timestamp (hd (Points ds))) (Timestamp (last (Points ds)))))"
proof -
  have r: "ClipDataset env (Some ds) cfg =
           clipFrames env ds
             (baseInfo env ds (Timestamp (hd (Points ds))) (Timestamp (last (Points ds)))) s e"
    using ClipDataset_in_range [OF assms(1,2), of cfg env] assms(3-8) by simp
  have A: "\<exists>out info. ClipDataset env (Some ds) cfg = Inr (out, info)
              \<and> Points out = filter (\<lambda>p. fle s (Timestamp p) \<and> fle (Timestamp p) e) (Points ds)
              \<and> Points out \<noteq> []
              \<and> Points out = take (length (Points out)) (drop (nat (StartFrame info)) (Points ds))
              \<and> Columns out = Columns ds
              \<and> StartFrame info = int (length (takeWhile (\<lambda>p. \<not> fle s (Timestamp p)) (Points ds)))
              \<and> EndFrame info = int (length (Points ds)) - 1
                    - int (length (takeWhile (\<lambda>p. \<not> fle (Timestamp p) e) (rev (Points ds))))
              \<and> EndFrame info = StartFrame info + int (length (Points out)) - 1
              \<and> ClippedPoints info = int (length (Points out))
              \<and> ActualStartTime info = Timestamp (hd (Points out))
              \<and> ActualEndTime info = Timestamp (last (Points out))
              \<and> MinTimestamp info = Timestamp (hd (Points ds))
              \<and> MaxTimestamp info = Timestamp (last (Points ds))
              \<and> OriginalPoints_clip info = int (length (Points ds))"
    if ex: "\<exists>p\<in>set (Points ds). fle s (Timestamp p) \<and> fle (Timestamp p) e"
  proof -
    note w = clipFrames_window [OF assms(2,9) ex, of env
        "baseInfo env ds (Timestamp (hd (Points ds))) (Timestamp (last (Points ds)))"]
    show ?thesis
      unfolding r
      apply (rule exI, rule exI, rule conjI, rule w [THEN conjunct1])
      using w by (simp add: baseInfo_def)
  qed
  have B: "ClipDataset env (Some ds) cfg =
             Inl (NoDataInRange,
                  baseInfo env ds (Timestamp (hd (Points ds))) (Timestamp (last (Points ds))))"
    if no: "\<not> (\<exists>p\<in>set (Points ds). fle s (Timestamp p) \<and> fle (Timestamp p) e)"
    unfolding r using assms(2,9) no by (rule clipFrames_no_window)
  show ?thesis using A B by blast
qed

lemma timeOrdered_fourPoints: "timeOrdered fourPoints"
  by (simp add: timeOrdered_def fourPoints_def mkPoint_def fle_def)

theorem clip_window_witness:
  "Points (mkDataset fourPoints [''x'']) \<noteq> [] \<and> timeOrdered (Points (mkDataset fourPoints [''x'']))
   \<and> flt (Fin 5) (Fin 25)
   \<and> (\<exists>out info. ClipDataset exact (Some (mkDataset fourPoints [''x'']))
                      (mkClipConfig (Some (Fin 5)) (Some (Fin 25))) = Inr (out, info)
          \<and> map Timestamp (Points out) = [Fin 10, Fin 20]
          \<and> StartFrame info = 1 \<and> EndFrame info = 2 \<and> ClippedPoints info = 2
          \<and> ActualStartTime info = Fin 10 \<and> ActualEndTime info = Fin 20)"
proof -
  define ds where "ds = mkDataset fourPoints [''x'']"
  define cfg where "cfg = mkClipConfig (Some (Fin 5)) (Some (Fin 25))"
  have p: "Points ds = fourPoints" by (simp add: ds_def mkDataset_def)
  have ne: "Points ds \<noteq> []" by (simp add: p fourPoints_def)
  have ord: "timeOrdered (Points ds)" by (simp add: p timeOrdered_fourPoints)
  have s: "Fin 5 = effectiveStart cfg (Points ds)" by (simp add: effectiveStart_def cfg_def mkClipConfig_def)
  have e: "Fin 25 = effectiveEnd cfg (Points ds)" by (simp add: effectiveEnd_def cfg_def mkClipConfig_def)
  have r: "fle (Timestamp (hd (Points ds))) (Fin 5)" "fle (Fin 5) (Timestamp (last (Points ds)))"
    "fle (Timestamp (hd (Points ds))) (Fin 25)" "fle (Fin 25) (Timestamp (last (Points ds)))"
    by (simp_all add: p fourPoints_def mkPoint_def fle_def)
  have lt: "flt (Fin 5) (Fin 25)" by simp
  have f: "filter (\<lambda>p. fle (Fin 5) (Timestamp p) \<and> fle (Timestamp p) (Fin 25)) (Points ds)
            = [mkPoint (Fin 10) ''p1'' ''A'' [(''x'', Fin 10)], mkPoint (Fin 20) ''p1'' ''A'' [(''x'', Fin 20)]]"
    by (simp add: p fourPoints_def mkPoint_def fle_def feq_def IsNaN_def)
  have tw: "takeWhile (\<lambda>p. \<not> fle (Fin 5) (Timestamp p)) (Points ds)
            = [mkPoint (Fin 0) ''p1'' ''A'' [(''x'', Fin 0)]]"
    by (simp add: p fourPoints_def mkPoint_def fle_def feq_def IsNaN_def)
  have ex: "\<exists>p\<in>set (Points ds). fle (Fin 5) (Timestamp p) \<and> fle (Timestamp p) (Fin 25)"
    by (simp add: p fourPoints_def mkPoint_def fle_def)
  from clip_window [OF ne ord s e r lt, of exact] ex
  obtain out info where o: "ClipDataset exact (Some ds) cfg = Inr (out, info)"
    "Points out = filter (\<lambda>p. fle (Fin 5) (Timestamp p) \<and> fle (Timestamp p) (Fin 25)) (Points ds)"
    "StartFrame info = int (length (takeWhile (\<lambda>p. \<not> fle (Fin 5) (Timestamp p)) (Points ds)))"
    "EndFrame info = StartFrame info + int (length (Points out)) - 1"
    "ClippedPoints info = int (length (Points out))"
    "ActualStartTime info = Timestamp (hd (Points out))"
    "ActualEndTime info = Timestamp (last (Points out))"
    by blast
  have v: "map Timestamp (Points out) = [Fin 10, Fin 20]
          \<and> StartFrame info = 1 \<and> EndFrame info = 2 \<and> ClippedPoints info = 2
          \<and> ActualStartTime info = Fin 10 \<and> ActualEndTime info = Fin 20"
    using o(2-7) unfolding f tw by (simp add: mkPoint_def)
  have "\<exists>out info. ClipDataset exact (Some ds) cfg = Inr (out, info)
          \<and> map Timestamp (Points out) = [Fin 10, Fin 20]
          \<and> StartFrame info = 1 \<and> EndFrame info = 2 \<and> ClippedPoints info = 2
          \<and> ActualStartTime info = Fin 10 \<and> ActualEndTime info = Fin 20"
    by (rule exI [of _ out], rule exI [of _ info]) (use o(1) v in simp)
  then show ?thesis using ne ord lt unfolding ds_def cfg_def by simp
qed

lemma timeOrdered_twoPoints: "timeOrdered twoPoints"
  by (simp add: timeOrdered_def twoPoints_def mkPoint_def fle_def)

text \<open>
  Claim C4, as the specification states it, fails when the bounds fall between two
  points: for the timestamps 0 and 10 and the bounds 2 and 5, which are ordered and within
  the observed range, the first point at or after the start comes after the last point at
  or before the end, and \<^verbatim>\<open>ClipDataset\<close> returns the no-data error instead of a slice.
\<close>

theorem clip_window_counterexample:
  "timeOrdered twoPoints \<and> flt (Fin 2) (Fin 5) \<and> fle (Fin 0) (Fin 2) \<and> fle (Fin 5) (Fin 10)
   \<and> ClipDataset exact (Some (mkDataset twoPoints [''x''])) (mkClipConfig (Some (Fin 2)) (Some (Fin 5)))
       = Inl (NoDataInRange, baseInfo exact (mkDataset twoPoints [''x'']) (Fin 0) (Fin 10))"
proof -
  have "ClipDataset exact (Some (mkDataset twoPoints [''x''])) (mkClipConfig (Some (Fin 2)) (Some (Fin 5)))
       = Inl (NoDataInRange, baseInfo exact (mkDataset twoPoints [''x'']) (Fin 0) (Fin 10))"
    by (simp add: ClipDataset_def mkDataset_def twoPoints_def mkPoint_def mkClipConfig_def
        scanMinMax_def checkBound_def clipFrames_def baseInfo_def zeroClipInfo_def
        fgt_def fge_def fle_def feq_def IsNaN_def fsub_def exact_def Let_def)
  then show ?thesis using timeOrdered_twoPoints by (simp add: fle_def)
qed

section \<open>Package stats: values, counts and groups\<close>

lemma extract_stats_not_NaN: "\<forall>v\<in>set (extractColumnValues_stats points col). \<not> IsNaN v"
  by (induction points) (auto split: option.splits)

lemma extract_stats_eq:
  "extractColumnValues_stats points col =
     map (\<lambda>p. the (Data p col))
       (filter (\<lambda>p. \<exists>v. Data p col = Some v \<and> v \<noteq> NaN) points)"
  by (induction points) (auto simp: IsNaN_def split: option.splits float64.splits)

lemma accumulate_loop_missing:
  "fst (foldl (\<lambda>(missing, sum, sumSq, mn, mx) v.
              if IsNaN v then (missing + 1, sum, sumSq, mn, mx)
              else (missing, fadd env sum v, fadd env sumSq (fmul env v v),
                    if flt v mn then v else mn, if fgt v mx then v else mx))
         (m, a, b, c, d) values)
   = m + int (length (filter IsNaN values))"
  by (induction "values" arbitrary: m a b c d) auto

lemma accumulate_missing: "fst (accumulate env values) = int (length (filter IsNaN values))"
  unfolding accumulate_def using accumulate_loop_missing [of env 0] by simp

lemma medianOf_returns: "xs \<noteq> [] \<Longrightarrow> \<exists>m. medianOf env xs = Inr m"
proof -
  assume ne: "xs \<noteq> []"
  define n where "n = int (length xs)"
  have n: "1 \<le> n" using ne by (cases xs) (auto simp: n_def)
  have i2: "0 \<le> n div 2 \<and> n div 2 < n" using n by auto
  show ?thesis
  proof (cases "n mod 2 = 0")
    case True
    then have "2 \<le> n" using n by presburger
    then have i1: "0 \<le> n div 2 - 1 \<and> n div 2 - 1 < n" by auto
    show ?thesis using True i1 i2 by (simp add: medianOf_def index_def Let_def n_def [symmetric])
  next
    case False
    then show ?thesis using i2 by (simp add: medianOf_def index_def Let_def n_def [symmetric])
  qed
qed

lemma columnStatsOf_counts:
  assumes ne: "values \<noteq> []" and nn: "\<forall>v\<in>set values. \<not> IsNaN v"
  shows "\<exists>st. columnStatsOf env col values = Inr st \<and> Column st = col
           \<and> Count st = int (length values) \<and> MissingCount st = 0"
proof -
  have f: "filter (\<lambda>v. \<not> IsNaN v) values = values" using nn by (simp add: filter_id_conv)
  have f0: "filter IsNaN values = []" using nn by (simp add: filter_empty_conv)
  have "Float64s values \<noteq> []" using ne length_Float64s [of "values"] by (metis length_0_conv)
  from medianOf_returns [OF this] obtain med where med: "medianOf env (Float64s values) = Inr med" by blast
  obtain missing sum sumSq mn mx where acc: "accumulate env values = (missing, sum, sumSq, mn, mx)"
    by (metis prod_cases5)
  have m0: "missing = 0" using accumulate_missing [of env "values"] acc f0 by simp
  show ?thesis
    by (simp add: columnStatsOf_def acc m0 f med Let_def)
qed

lemma columnStatsLoop_returns:
  "\<forall>st\<in>set acc. MissingCount st = 0 \<Longrightarrow>
   \<exists>sts. columnStatsLoop env points cols acc = Inr sts \<and> (\<forall>st\<in>set sts. MissingCount st = 0)"
proof (induction cols arbitrary: acc)
  case Nil
  then show ?case by simp
next
  case (Cons col cols)
  show ?case
  proof (cases "extractColumnValues_stats points col = []")
    case True
    then show ?thesis using Cons by simp
  next
    case False
    from columnStatsOf_counts [OF False extract_stats_not_NaN, of env col] obtain st where
      st: "columnStatsOf env col (extractColumnValues_stats points col) = Inr st" "MissingCount st = 0"
      by blast
    have "\<forall>x\<in>set (acc @ [st]). MissingCount x = 0" using Cons.prems st(2) by simp
    from Cons.IH [OF this] show ?thesis using False st(1) by (simp add: Let_def)
  qed
qed

lemma computeColumnStats_returns:
  "\<exists>sts. computeColumnStats env ds cols cfg = Inr sts \<and> (\<forall>st\<in>set sts. MissingCount st = 0)"
  unfolding computeColumnStats_def using columnStatsLoop_returns [of "[]" env "Points ds" cols] by simp

section \<open>Package stats: the claims\<close>

text \<open>
  Claim C1 does not hold of the code. The claim: a value that is present but NaN is
  counted in \<^verbatim>\<open>MissingCount\<close> and included in \<^verbatim>\<open>Count\<close>. The code: for the two points
  below, whose column \<open>x\<close> holds NaN and 1, \<^verbatim>\<open>computeColumnStats\<close> reports one
  statistic for \<open>x\<close> with \<^verbatim>\<open>Count\<close> 1 and \<^verbatim>\<open>MissingCount\<close> 0, whatever the rounding:
  \<^verbatim>\<open>extractColumnValues\<close> has dropped the NaN before the loop that counts NaN values
  sees it.
\<close>

theorem nan_value_not_counted:
  "map (\<lambda>p. Data p ''x'') nanPoints = [Some NaN, Some (Fin 1)]
   \<and> (\<exists>st. computeColumnStats env (mkDataset nanPoints [''x'']) [''x''] cfg = Inr [st]
          \<and> Column st = ''x'' \<and> Count st = 1 \<and> MissingCount st = 0)"
proof -
  have v: "extractColumnValues_stats nanPoints ''x'' = [Fin 1]"
    by (simp add: nanPoints_def mkPoint_def IsNaN_def)
  have "[Fin 1] \<noteq> []" "\<forall>v\<in>set [Fin 1]. \<not> IsNaN v" by (simp_all add: IsNaN_def)
  from columnStatsOf_counts [OF this, of env "''x''"] obtain st where
    st: "columnStatsOf env ''x'' [Fin 1] = Inr st" "Column st = ''x''" "Count st = 1" "MissingCount st = 0"
    by auto
  have "computeColumnStats env (mkDataset nanPoints [''x'']) [''x''] cfg = Inr [st]"
    by (simp add: computeColumnStats_def mkDataset_def v st(1))
  then show ?thesis using st(2-4) by (simp add: nanPoints_def mkPoint_def)
qed

lemma map_of_appendTo:
  "map_of (appendTo k p g) k' =
     (if k' = k then Some ((case map_of g k of None \<Rightarrow> [] | Some ps \<Rightarrow> ps) @ [p])
      else map_of g k')"
  by (induction g) auto

lemma keys_appendTo: "fst ` set (appendTo k p g) = insert k (fst ` set g)"
proof (induction g)
  case Nil
  then show ?case by simp
next
  case (Cons a g)
  obtain k' ps where a: "a = (k', ps)" by (cases a)
  show ?case
  proof (cases "k = k'")
    case True
    then show ?thesis by (simp add: a)
  next
    case False
    have "fst ` set (appendTo k p (a # g)) = insert k' (fst ` set (appendTo k p g))"
      using False by (simp add: a)
    then show ?thesis unfolding Cons.IH by (auto simp: a)
  qed
qed

lemma distinct_appendTo: "distinct (map fst g) \<Longrightarrow> distinct (map fst (appendTo k p g))"
proof (induction g)
  case Nil
  then show ?case by simp
next
  case (Cons a g)
  obtain k' ps where a: "a = (k', ps)" by (cases a)
  have d: "distinct (map fst g)" and nk: "k' \<notin> fst ` set g" using Cons.prems by (auto simp: a)
  show ?case
  proof (cases "k = k'")
    case True
    then show ?thesis using d nk by (simp add: a)
  next
    case False
    have "k' \<notin> fst ` set (appendTo k p g)" unfolding keys_appendTo using nk False by simp
    then show ?thesis using False Cons.IH [OF d] by (simp add: a)
  qed
qed

lemma groupBy_loop:
  "map_of (foldl (\<lambda>groups point. appendTo (key point) point groups) g points) k =
     (case map_of g k of
        None \<Rightarrow> if filter (\<lambda>p. key p = k) points = [] then None
                else Some (filter (\<lambda>p. key p = k) points)
      | Some ps \<Rightarrow> Some (ps @ filter (\<lambda>p. key p = k) points))"
proof (induction points arbitrary: g)
  case Nil
  then show ?case by (simp split: option.splits)
next
  case (Cons p points)
  show ?case
    unfolding foldl_Cons Cons.IH [of "appendTo (key p) p g"] map_of_appendTo
    by (auto split: option.splits)
qed

lemma groupBy_distinct_loop:
  "distinct (map fst g) \<Longrightarrow>
   distinct (map fst (foldl (\<lambda>groups point. appendTo (key point) point groups) g points))"
  by (induction points arbitrary: g) (auto simp: distinct_appendTo)

lemma map_of_groupBy:
  "map_of (groupBy key points) k =
     (if k \<in> key ` set points then Some (filter (\<lambda>p. key p = k) points) else None)"
proof -
  have "filter (\<lambda>p. key p = k) points = [] \<longleftrightarrow> k \<notin> key ` set points"
    by (auto simp: filter_empty_conv)
  then show ?thesis unfolding groupBy_def groupBy_loop by simp
qed

lemma distinct_groupBy: "distinct (map fst (groupBy key points))"
  unfolding groupBy_def by (rule groupBy_distinct_loop) simp

lemma statsOfGroups_returns:
  "distinct (map fst groups) \<Longrightarrow>
   \<exists>rep. statsOfGroups env ds cols cfg groups acc = Inr rep
     \<and> (\<forall>k. rep k =
           (case map_of groups k of
              Some ps \<Rightarrow>
                Some (projr (computeColumnStats env
                  \<lparr> Points = ps, Columns = Columns ds, Metadata = Map.empty \<rparr> cols cfg))
            | None \<Rightarrow> acc k))"
proof (induction groups arbitrary: acc)
  case Nil
  then show ?case by simp
next
  case (Cons kp groups)
  obtain k ps where kp: "kp = (k, ps)" by (cases kp)
  obtain sts where sts: "computeColumnStats env
       \<lparr> Points = ps, Columns = Columns ds, Metadata = Map.empty \<rparr> cols cfg = Inr sts"
    using computeColumnStats_returns by blast
  have d: "distinct (map fst groups)" and nk: "k \<notin> fst ` set groups" using Cons.prems kp by auto
  from Cons.IH [OF d, of "acc(k \<mapsto> sts)"] obtain rep where
    rep: "statsOfGroups env ds cols cfg groups (acc(k \<mapsto> sts)) = Inr rep"
      "\<forall>k'. rep k' =
           (case map_of groups k' of
              Some ps \<Rightarrow>
                Some (projr (computeColumnStats env
                  \<lparr> Points = ps, Columns = Columns ds, Metadata = Map.empty \<rparr> cols cfg))
            | None \<Rightarrow> (acc(k \<mapsto> sts)) k')"
    by blast
  have mk: "map_of groups k = None" using nk by (simp add: map_of_eq_None_iff)
  have "statsOfGroups env ds cols cfg (kp # groups) acc = Inr rep"
    using rep(1) sts kp by simp
  moreover have "\<forall>k'. rep k' =
           (case map_of (kp # groups) k' of
              Some ps \<Rightarrow>
                Some (projr (computeColumnStats env
                  \<lparr> Points = ps, Columns = Columns ds, Metadata = Map.empty \<rparr> cols cfg))
            | None \<Rightarrow> acc k')"
    using rep(2) mk sts kp by (auto split: option.splits)
  ultimately show ?case by blast
qed

lemma statsOfGroups_groupBy:
  "\<exists>rep. statsOfGroups env ds cols cfg (groupBy key (Points ds)) Map.empty = Inr rep
     \<and> dom rep = key ` set (Points ds)
     \<and> (\<forall>k sts. rep k = Some sts \<longrightarrow>
           computeColumnStats env
             \<lparr> Points = filter (\<lambda>p. key p = k) (Points ds), Columns = Columns ds,
               Metadata = Map.empty \<rparr> cols cfg = Inr sts)"
proof -
  from statsOfGroups_returns [OF distinct_groupBy, of env ds cols cfg key "Points ds" Map.empty]
  obtain rep where rep: "statsOfGroups env ds cols cfg (groupBy key (Points ds)) Map.empty = Inr rep"
    and v: "\<forall>k. rep k =
           (case map_of (groupBy key (Points ds)) k of
              Some ps \<Rightarrow>
                Some (projr (computeColumnStats env
                  \<lparr> Points = ps, Columns = Columns ds, Metadata = Map.empty \<rparr> cols cfg))
            | None \<Rightarrow> None)"
    by auto
  have d: "dom rep = key ` set (Points ds)"
    using v by (auto simp: map_of_groupBy dom_def split: if_splits)
  have s: "\<forall>k sts. rep k = Some sts \<longrightarrow>
           computeColumnStats env
             \<lparr> Points = filter (\<lambda>p. key p = k) (Points ds), Columns = Columns ds,
               Metadata = Map.empty \<rparr> cols cfg = Inr sts"
  proof (intro allI impI)
    fix k sts assume a: "rep k = Some sts"
    obtain sts' where c: "computeColumnStats env
             \<lparr> Points = filter (\<lambda>p. key p = k) (Points ds), Columns = Columns ds,
               Metadata = Map.empty \<rparr> cols cfg = Inr sts'"
      using computeColumnStats_returns by blast
    have "rep k = (if k \<in> key ` set (Points ds) then Some sts' else None)"
      using v c by (simp add: map_of_groupBy)
    then have "sts' = sts" using a by (simp split: if_splits)
    then show "computeColumnStats env
             \<lparr> Points = filter (\<lambda>p. key p = k) (Points ds), Columns = Columns ds,
               Metadata = Map.empty \<rparr> cols cfg = Inr sts" using c by simp
  qed
  show ?thesis using rep d s by blast
qed

lemma computeColumnStats_config:
  "computeColumnStats env ds cols c1 = computeColumnStats env ds cols c2"
  by (simp add: computeColumnStats_def)

lemma conditionKey_eq: "conditionKey = (\<lambda>p. if Condition p = [] then ''unknown'' else Condition p)"
  by (auto simp: conditionKey_def fun_eq_iff)

lemma participantKey_eq:
  "participantKey = (\<lambda>p. if ParticipantID p = [] then ''unknown'' else ParticipantID p)"
  by (auto simp: participantKey_def fun_eq_iff)

text \<open>
  Claim C7. For a dataset with points and \<^verbatim>\<open>ByCondition\<close> set, \<^verbatim>\<open>ComputeStats\<close>
  returns a report whose condition map has as its keys exactly the condition labels of
  the points, the empty label replaced by \<open>unknown\<close>; the entry of a key is the result
  of \<^verbatim>\<open>computeColumnStats\<close> on the points of that key alone, in their order. The
  participant map is built in the same way from all points of the dataset when
  \<^verbatim>\<open>ByParticipant\<close> is set, and is empty otherwise. No overall statistics are computed.
\<close>

theorem stats_partitions:
  assumes "Points ds \<noteq> []" and "ByCondition cfg"
    and "cols = (if AnalyzeColumns cfg = [] then Columns ds else AnalyzeColumns cfg)"
  shows "\<exists>rep. ComputeStats env (Some ds) cfg = Inr rep
     \<and> OverallStats rep = []
     \<and> dom (ConditionStats rep) =
         (\<lambda>p. if Condition p = [] then ''unknown'' else Condition p) ` set (Points ds)
     \<and> (\<forall>k sts. ConditionStats rep k = Some sts \<longrightarrow>
          computeColumnStats env
            \<lparr> Points = filter (\<lambda>p. (if Condition p = [] then ''unknown'' else Condition p) = k)
                         (Points ds),
              Columns = Columns ds, Metadata = Map.empty \<rparr> cols cfg = Inr sts)
     \<and> (ByParticipant cfg \<longrightarrow>
          dom (ParticipantStats rep) =
            (\<lambda>p. if ParticipantID p = [] then ''unknown'' else ParticipantID p) ` set (Points ds)
        \<and> (\<forall>k sts. ParticipantStats rep k = Some sts \<longrightarrow>
             computeColumnStats env
               \<lparr> Points = filter (\<lambda>p. (if ParticipantID p = [] then ''unknown'' else ParticipantID p) = k)
                            (Points ds),
                 Columns = Columns ds, Metadata = Map.empty \<rparr> cols cfg = Inr sts))
     \<and> (\<not> ByParticipant cfg \<longrightarrow> ParticipantStats rep = Map.empty)"
proof -
  define config where "config = (if length (AnalyzeColumns cfg) = 0
                          then cfg\<lparr>AnalyzeColumns := Columns ds\<rparr> else cfg)"
  have ac: "AnalyzeColumns config = cols" using assms(3) by (auto simp: config_def)
  have bc: "ByCondition config" using assms(2) by (simp add: config_def)
  have bp: "ByParticipant config = ByParticipant cfg" by (simp add: config_def)
  from statsOfGroups_groupBy [of env ds cols config conditionKey]
  obtain crep where c: "statsOfGroups env ds cols config (groupBy conditionKey (Points ds)) Map.empty = Inr crep"
    "dom crep = conditionKey ` set (Points ds)"
    "\<forall>k sts. crep k = Some sts \<longrightarrow>
           computeColumnStats env
             \<lparr> Points = filter (\<lambda>p. conditionKey p = k) (Points ds), Columns = Columns ds,
               Metadata = Map.empty \<rparr> cols config = Inr sts"
    by blast
  from statsOfGroups_groupBy [of env ds cols config participantKey]
  obtain prep where p: "statsOfGroups env ds cols config (groupBy participantKey (Points ds)) Map.empty = Inr prep"
    "dom prep = participantKey ` set (Points ds)"
    "\<forall>k sts. prep k = Some sts \<longrightarrow>
           computeColumnStats env
             \<lparr> Points = filter (\<lambda>p. participantKey p = k) (Points ds), Columns = Columns ds,
               Metadata = Map.empty \<rparr> cols config = Inr sts"
    by blast
  define rep where "rep = \<lparr> OverallStats = [], ConditionStats = crep,
                           ParticipantStats = (if ByParticipant cfg then prep else Map.empty) \<rparr>"
  have u: "ComputeStats env (Some ds) cfg =
     (case (if ByCondition config
                     then statsOfGroups env ds (AnalyzeColumns config) config
                            (groupBy conditionKey (Points ds)) Map.empty
                     else Inr Map.empty) of
                 Inl e \<Rightarrow> Inl e
               | Inr conditionStats \<Rightarrow>
                   (case (if ByParticipant config
                          then statsOfGroups env ds (AnalyzeColumns config) config
                                 (groupBy participantKey (Points ds)) Map.empty
                          else Inr Map.empty) of
                      Inl e \<Rightarrow> Inl e
                    | Inr participantStats \<Rightarrow>
                        if \<not> ByCondition config \<and> \<not> ByParticipant config
                        then
                          (case computeColumnStats env ds (AnalyzeColumns config) config of
                             Inl e \<Rightarrow> Inl e
                           | Inr stats \<Rightarrow>
                               Inr \<lparr> OverallStats = stats, ConditionStats = conditionStats,
                                     ParticipantStats = participantStats \<rparr>)
                        else Inr \<lparr> OverallStats = [], ConditionStats = conditionStats,
                                   ParticipantStats = participantStats \<rparr>))"
    unfolding ComputeStats_def config_def Let_def using assms(1) by simp
  have r: "ComputeStats env (Some ds) cfg = Inr rep"
    unfolding u ac using bc bp c(1) p(1) by (simp add: rep_def)
  have c3: "\<forall>k sts. ConditionStats rep k = Some sts \<longrightarrow>
          computeColumnStats env
            \<lparr> Points = filter (\<lambda>p. (if Condition p = [] then ''unknown'' else Condition p) = k)
                         (Points ds),
              Columns = Columns ds, Metadata = Map.empty \<rparr> cols cfg = Inr sts"
    using c(3) computeColumnStats_config [of env _ cols config cfg]
    by (simp add: rep_def conditionKey_eq)
  have p3: "ByParticipant cfg \<longrightarrow> (\<forall>k sts. ParticipantStats rep k = Some sts \<longrightarrow>
             computeColumnStats env
               \<lparr> Points = filter (\<lambda>p. (if ParticipantID p = [] then ''unknown'' else ParticipantID p) = k)
                            (Points ds),
                 Columns = Columns ds, Metadata = Map.empty \<rparr> cols cfg = Inr sts)"
    using p(3) computeColumnStats_config [of env _ cols config cfg]
    by (simp add: rep_def participantKey_eq)
  have c2: "dom (ConditionStats rep) =
         (\<lambda>p. if Condition p = [] then ''unknown'' else Condition p) ` set (Points ds)"
    using c(2) by (simp add: rep_def conditionKey_eq)
  have p2: "ByParticipant cfg \<longrightarrow> dom (ParticipantStats rep) =
            (\<lambda>p. if ParticipantID p = [] then ''unknown'' else ParticipantID p) ` set (Points ds)"
    using p(2) by (simp add: rep_def participantKey_eq)
  have o: "OverallStats rep = []" by (simp add: rep_def)
  have e: "\<not> ByParticipant cfg \<longrightarrow> ParticipantStats rep = Map.empty" by (simp add: rep_def)
  show ?thesis using r o c2 c3 p2 p3 e by blast
qed

lemma abPoints_keys:
  "(\<lambda>p. if Condition p = [] then ''unknown'' else Condition p) ` set (Points (mkDataset abPoints [''x'']))
        = {''A'', ''B'', ''unknown''}"
proof -
  have "map (\<lambda>p. if Condition p = [] then ''unknown'' else Condition p) (Points (mkDataset abPoints [''x'']))
          = [''A'', ''B'', ''unknown'', ''A'']"
    by (simp add: mkDataset_def abPoints_def mkPoint_def)
  then have "set (map (\<lambda>p. if Condition p = [] then ''unknown'' else Condition p) (Points (mkDataset abPoints [''x''])))
          = set [''A'', ''B'', ''unknown'', ''A'']" by (simp only:)
  then show ?thesis unfolding set_map by (simp add: insert_commute)
qed

theorem stats_partitions_witness:
  "Points (mkDataset abPoints [''x'']) \<noteq> []
   \<and> (\<exists>rep. ComputeStats exact (Some (mkDataset abPoints [''x''])) (mkStatsConfig [] True False) = Inr rep
         \<and> dom (ConditionStats rep) = {''A'', ''B'', ''unknown''}
         \<and> ParticipantStats rep = Map.empty)"
proof -
  have ne: "Points (mkDataset abPoints [''x'']) \<noteq> []" by (simp add: mkDataset_def abPoints_def)
  have bc: "ByCondition (mkStatsConfig [] True False)" by (simp add: mkStatsConfig_def)
  have nbp: "\<not> ByParticipant (mkStatsConfig [] True False)" by (simp add: mkStatsConfig_def)
  note t = stats_partitions [OF ne bc refl, of exact]
  have "\<exists>rep. ComputeStats exact (Some (mkDataset abPoints [''x''])) (mkStatsConfig [] True False) = Inr rep
         \<and> dom (ConditionStats rep) =
             (\<lambda>p. if Condition p = [] then ''unknown'' else Condition p) ` set (Points (mkDataset abPoints [''x'']))
         \<and> (\<not> ByParticipant (mkStatsConfig [] True False) \<longrightarrow> ParticipantStats rep = Map.empty)"
    using t by (elim exE conjE) (intro exI conjI; assumption)
  then have "\<exists>rep. ComputeStats exact (Some (mkDataset abPoints [''x''])) (mkStatsConfig [] True False) = Inr rep
         \<and> dom (ConditionStats rep) = {''A'', ''B'', ''unknown''}
         \<and> ParticipantStats rep = Map.empty"
    unfolding abPoints_keys using nbp by blast
  then show ?thesis using ne by blast
qed

end
